theory Spec2Isabelle
  imports Complex_Main
begin

section \<open>Data model of the tutorial notebook\<close>

text \<open>
  The notebook talks to a hosted chat-completion endpoint. A request carries the model
  name, the ordered role/content messages, the temperature and the output budget; a
  response carries a list of choices, each holding one message. Python strings are
  modelled as \<^typ>\<open>string\<close>; a \<^typ>\<open>char\<close> stands for the code point of the same
  number, so the strings of the model are the Python strings over the code points below
  256 (ASCII and the Latin-1 supplement).
\<close>

record chat_message =
  role :: string
  content :: string

record request =
  model :: string
  messages :: "chat_message list"
  temperature :: real
  max_tokens :: int

record choice =
  message :: chat_message

record response =
  choices :: "choice list"

text \<open>
  Exceptions are values. The first six are raised by the endpoint's client library
  (\<open>openai.error\<close>), \<open>ValueError\<close> and \<open>IndexError\<close> by Python itself, and
  \<open>RetryError\<close> by the retrying decorator, which wraps the failure of the last attempt.
\<close>

datatype error =
    RateLimitError | Timeout | APIConnectionError | ServiceUnavailableError
  | AuthenticationError | InvalidRequestError
  | ValueError | IndexError
  | RetryError error

text \<open>
  The classification the specification speaks of: rate limits and network trouble are
  transient, bad credentials and malformed requests are permanent. The notebook's code
  never consults it; it only appears in statements.
\<close>

fun transient :: "error \<Rightarrow> bool" where
  "transient RateLimitError = True"
| "transient Timeout = True"
| "transient APIConnectionError = True"
| "transient ServiceUnavailableError = True"
| "transient _ = False"

text \<open>
  The outside world: the service answers the \<open>n\<close>-th outbound call of a run (counted
  from 0) carrying request \<open>r\<close> with \<open>service n r\<close>. The state threaded through the
  code is the log of requests issued so far and the log of back-off delays slept so far.
\<close>

type_synonym service = "nat \<Rightarrow> request \<Rightarrow> error + response"

record world =
  calls :: "request list"
  sleeps :: "real list"

definition world0 :: world where
  "world0 = \<lparr>calls = [], sleeps = []\<rparr>"

section \<open>Python primitives used by the notebook\<close>

text \<open>\<open>xs[i]\<close> on a list or string: negative indices count from the end, out of range raises.\<close>

definition getitem :: "'a list \<Rightarrow> int \<Rightarrow> error + 'a" where
  "getitem xs i =
     (let n = int (length xs); j = (if i < 0 then i + n else i)
      in if 0 \<le> j \<and> j < n then Inr (xs ! nat j) else Inl IndexError)"

text \<open>\<open>range(start, stop, step)\<close>: a zero step raises \<open>ValueError\<close>; the length is computed
  as CPython does, separately for an ascending and a descending range.\<close>

definition range_py :: "int \<Rightarrow> int \<Rightarrow> int \<Rightarrow> error + int list" where
  "range_py start stop step =
     (if step = 0 then Inl ValueError
      else let n = (if 0 < step
                    then (if start < stop then (stop - start - 1) div step + 1 else 0)
                    else (if stop < start then (start - stop - 1) div (- step) + 1 else 0))
           in Inr (map (\<lambda>k. start + int k * step) [0..<nat n]))"

text \<open>\<open>df.iloc[i:j]\<close>: positional slicing; a negative bound counts from the end, and both
  bounds are clipped to the length.\<close>

definition slice_bound :: "nat \<Rightarrow> int \<Rightarrow> nat" where
  "slice_bound n i = (if i < 0 then nat (max 0 (i + int n)) else min n (nat i))"

definition iloc :: "'a list \<Rightarrow> int \<Rightarrow> int \<Rightarrow> 'a list" where
  "iloc df i j = (let a = slice_bound (length df) i; b = slice_bound (length df) j
                  in take (b - a) (drop a df))"

text \<open>\<open>str.isspace\<close> on the code points below 256: tab to carriage return (9-13), the
  four information separators (28-31), the space (32), next line (U+0085, 133) and the
  no-break space (U+00A0, 160).\<close>

definition isspace :: "char \<Rightarrow> bool" where
  "isspace c =
     (let n = (of_char c :: nat)
      in (9 \<le> n \<and> n \<le> 13) \<or> (28 \<le> n \<and> n \<le> 32) \<or> n = 133 \<or> n = 160)"

text \<open>\<open>str.split()\<close> without argument: split at runs of whitespace, no empty words.\<close>

fun split_words :: "string \<Rightarrow> string \<Rightarrow> string list" where
  "split_words word [] = (if word = [] then [] else [word])"
| "split_words word (c # cs) =
     (if isspace c then (if word = [] then split_words [] cs else word # split_words [] cs)
      else split_words (word @ [c]) cs)"

definition str_split :: "string \<Rightarrow> string list" where
  "str_split s = split_words [] s"

text \<open>\<open>str.lower\<close> on the code points below 256: the upper-case letters are \<open>A\<close> to \<open>Z\<close>
  (65-90) and, in the Latin-1 supplement, U+00C0 to U+00DE (192-222) without the
  multiplication sign U+00D7 (215); each has its lower-case letter 32 places further on.
  Every other code point below 256 is left as it is.\<close>

definition lower_char :: "char \<Rightarrow> char" where
  "lower_char c =
     (let n = (of_char c :: nat)
      in if (65 \<le> n \<and> n \<le> 90) \<or> (192 \<le> n \<and> n \<le> 222 \<and> n \<noteq> 215)
         then char_of (n + 32) else c)"

definition str_lower :: "string \<Rightarrow> string" where
  "str_lower s = map lower_char s"

section \<open>The completion helpers\<close>

text \<open>\<open>openai.ChatCompletion.create\<close>: one outbound call. The request is logged whether
  the service answers or fails.\<close>

definition ChatCompletion_create :: "service \<Rightarrow> request \<Rightarrow> world \<Rightarrow> (error + response) \<times> world" where
  "ChatCompletion_create svc req w = (svc (length (calls w)) req, w\<lparr>calls := calls w @ [req]\<rparr>)"

text \<open>\<open>response.choices[0].message["content"]\<close>.\<close>

definition first_content :: "response \<Rightarrow> error + string" where
  "first_content resp =
     (case getitem (choices resp) 0 of Inl e \<Rightarrow> Inl e | Inr c \<Rightarrow> Inr (content (message c)))"

text \<open>\<open>get_completion_from_messages\<close> (lines 81-91), with its parameters explicit, and the
  call that leaves \<open>model\<close>, \<open>temperature\<close> and \<open>max_tokens\<close> at their defaults.\<close>

definition get_completion_from_messages ::
  "service \<Rightarrow> chat_message list \<Rightarrow> string \<Rightarrow> real \<Rightarrow> int \<Rightarrow> world \<Rightarrow> (error + string) \<times> world" where
  "get_completion_from_messages svc msgs mdl temp mt w =
     (case ChatCompletion_create svc
             \<lparr>model = mdl, messages = msgs, temperature = temp, max_tokens = mt\<rparr> w of
        (Inl e, w') \<Rightarrow> (Inl e, w')
      | (Inr resp, w') \<Rightarrow> (first_content resp, w'))"

definition get_completion_from_messages_default ::
  "service \<Rightarrow> chat_message list \<Rightarrow> world \<Rightarrow> (error + string) \<times> world" where
  "get_completion_from_messages_default svc msgs w =
     get_completion_from_messages svc msgs ''gpt-3.5-turbo'' 0 150 w"

section \<open>The batch helper\<close>

text \<open>The inner loop of lines 360-362: every row of the batch is appended to the user
  message, each followed by the delimiter.\<close>

fun build_user_message :: "string \<Rightarrow> string list \<Rightarrow> string \<Rightarrow> string" where
  "build_user_message delimiter [] user_message = user_message"
| "build_user_message delimiter (row # batch) user_message =
     build_user_message delimiter batch (user_message @ row @ delimiter)"

text \<open>Lines 357-369 and 374-379: the request built for the batch that starts at offset \<open>i\<close>.\<close>

definition batch_request :: "string list \<Rightarrow> string \<Rightarrow> int \<Rightarrow> string \<Rightarrow> real \<Rightarrow> int \<Rightarrow> int \<Rightarrow> request" where
  "batch_request df system_message batch_size mdl temp mt i =
     (let delimiter = ''####'';
          batch = iloc df i (i + batch_size);
          user_message = build_user_message delimiter batch '''';
          msgs = [\<lparr>role = ''system'', content = system_message\<rparr>,
                  \<lparr>role = ''user'', content = user_message\<rparr>]
      in \<lparr>model = mdl, messages = msgs, temperature = temp, max_tokens = mt\<rparr>)"

text \<open>The outer loop of lines 358-382 over the offsets that \<open>range\<close> produced: one call per
  offset; a failing call, or a response without choices, ends the loop with the exception
  and the responses collected so far are dropped with the frame.\<close>

fun batch_loop :: "service \<Rightarrow> (int \<Rightarrow> request) \<Rightarrow> int list \<Rightarrow> string list \<Rightarrow> world
    \<Rightarrow> (error + string list) \<times> world" where
  "batch_loop svc req_of [] responses w = (Inr responses, w)"
| "batch_loop svc req_of (i # offsets) responses w =
     (case ChatCompletion_create svc (req_of i) w of
        (Inl e, w') \<Rightarrow> (Inl e, w')
      | (Inr resp, w') \<Rightarrow>
          (case first_content resp of
             Inl e \<Rightarrow> (Inl e, w')
           | Inr txt \<Rightarrow> batch_loop svc req_of offsets (responses @ [txt]) w'))"

text \<open>The undecorated body of \<open>get_completion_from_messages_batch\<close> (lines 349-384): one
  attempt.\<close>

definition batch_body :: "service \<Rightarrow> string list \<Rightarrow> string \<Rightarrow> int \<Rightarrow> string \<Rightarrow> real \<Rightarrow> int \<Rightarrow> world
    \<Rightarrow> (error + string list) \<times> world" where
  "batch_body svc df system_message batch_size mdl temp mt w =
     (case range_py 0 (int (length df)) batch_size of
        Inl e \<Rightarrow> (Inl e, w)
      | Inr offsets \<Rightarrow>
          batch_loop svc (batch_request df system_message batch_size mdl temp mt) offsets [] w)"

section \<open>The retrying decorator\<close>

text \<open>
  Line 348 decorates the whole batch helper with
  \<open>@retry(wait=wait_random_exponential(min=30, max=60), stop=stop_after_attempt(6))\<close>.
  The decorator comes from the tenacity library, which is not part of the repository.
  Its control loop is modelled with every option explicit: which failures are retried
  (\<open>retry_if\<close>), the delay before the next attempt (\<open>wait\<close>), when to give up
  (\<open>stop_after_attempt\<close>) and whether the last failure is re-raised as it is or wrapped
  (\<open>reraise\<close>). An attempt is one run of the decorated function from its first line.
\<close>

definition stop_after_attempt :: "nat \<Rightarrow> nat \<Rightarrow> bool" where
  "stop_after_attempt max_attempt_number attempt_number = (max_attempt_number \<le> attempt_number)"

function retry :: "(error \<Rightarrow> bool) \<Rightarrow> (nat \<Rightarrow> real) \<Rightarrow> nat \<Rightarrow> bool \<Rightarrow> (world \<Rightarrow> (error + 'a) \<times> world)
    \<Rightarrow> nat \<Rightarrow> world \<Rightarrow> (error + 'a) \<times> world" where
  "retry retry_if wait max_attempt_number reraise fn attempt_number w =
     (case fn w of
        (Inr result, w') \<Rightarrow> (Inr result, w')
      | (Inl e, w') \<Rightarrow>
          if \<not> retry_if e then (Inl e, w')
          else if stop_after_attempt max_attempt_number attempt_number
          then (if reraise then (Inl e, w') else (Inl (RetryError e), w'))
          else retry retry_if wait max_attempt_number reraise fn (attempt_number + 1)
                 (w'\<lparr>sleeps := sleeps w' @ [wait attempt_number]\<rparr>))"
  by pat_completeness auto
termination
  by (relation "measure (\<lambda>(retry_if, wait, max_attempt_number, reraise, fn, attempt_number, w).
        max_attempt_number - attempt_number)")
     (auto simp: stop_after_attempt_def)

declare retry.simps [simp del]

text \<open>The options line 348 leaves out take the library's defaults: every exception is
  retried, and the last failure is wrapped in \<open>RetryError\<close>.\<close>

definition retry_if_exception_type :: "error \<Rightarrow> bool" where
  "retry_if_exception_type e = True"

definition reraise_default :: bool where
  "reraise_default = False"

text \<open>
  Modelled from the spec: the upper end of the back-off window of
  \<open>wait_random_exponential(min, max)\<close>, which is computed inside the tenacity library and
  is missing from the sources. Following section 4.2 of the specification the window is
  exponentially bounded: its upper end doubles with the attempt number (multiplier 1,
  base 2), is never below \<open>min\<close> and is capped at \<open>max\<close>.
\<close>

definition wait_exponential :: "real \<Rightarrow> real \<Rightarrow> nat \<Rightarrow> real" where
  "wait_exponential mn mx attempt_number =
     max (max 0 mn) (min (2 ^ (attempt_number - 1)) mx)"

text \<open>
  Modelled from the spec: the delay \<open>wait_random_exponential(min, max)\<close> returns, also
  computed inside the tenacity library. Following section 4.2 of the specification it is
  drawn uniformly from the window between \<open>min\<close> and the upper end for the attempt;
  \<open>u\<close> is the random draw from the unit interval.
\<close>

definition wait_random_exponential :: "real \<Rightarrow> real \<Rightarrow> real \<Rightarrow> nat \<Rightarrow> real" where
  "wait_random_exponential mn mx u attempt_number =
     mn + u * (wait_exponential mn mx attempt_number - mn)"

text \<open>The decorated \<open>get_completion_from_messages_batch\<close> as callers see it; \<open>rnd n\<close> is
  the random draw taken after attempt \<open>n\<close>. The second definition is the call that leaves
  \<open>model\<close>, \<open>temperature\<close> and \<open>max_tokens\<close> at their defaults.\<close>

definition get_completion_from_messages_batch ::
  "service \<Rightarrow> (nat \<Rightarrow> real) \<Rightarrow> string list \<Rightarrow> string \<Rightarrow> int \<Rightarrow> string \<Rightarrow> real \<Rightarrow> int \<Rightarrow> world
    \<Rightarrow> (error + string list) \<times> world" where
  "get_completion_from_messages_batch svc rnd df system_message batch_size mdl temp mt w =
     retry retry_if_exception_type (\<lambda>n. wait_random_exponential 30 60 (rnd n) n) 6 reraise_default
       (batch_body svc df system_message batch_size mdl temp mt) 1 w"

definition get_completion_from_messages_batch_default ::
  "service \<Rightarrow> (nat \<Rightarrow> real) \<Rightarrow> string list \<Rightarrow> string \<Rightarrow> int \<Rightarrow> world \<Rightarrow> (error + string list) \<times> world" where
  "get_completion_from_messages_batch_default svc rnd df system_message batch_size w =
     get_completion_from_messages_batch svc rnd df system_message batch_size ''gpt-3.5-turbo'' 0 300 w"

section \<open>Post-processing cells\<close>

text \<open>Lines 436-438: the loop that closes a response's bracket. It updates the list in
  place, so when \<open>r[len(r)-1]\<close> raises on an empty string the elements before it have
  already been rewritten; the result is the list as the loop left it and the exception,
  if any.\<close>

fun bracket_repair :: "string list \<Rightarrow> string list \<times> error option" where
  "bracket_repair [] = ([], None)"
| "bracket_repair (r # responses) =
     (case getitem r (int (length r) - 1) of
        Inl e \<Rightarrow> (r # responses, Some e)
      | Inr c \<Rightarrow>
          (case bracket_repair responses of
             (responses', e) \<Rightarrow> ((if c \<noteq> CHR '']'' then r @ '']'' else r) # responses', e)))"

text \<open>Lines 493 and 503: the single-word labels, lower-cased, then collapsed into a set
  (the order of \<open>list(set(...))\<close> is unspecified, so the result is modelled as the set).\<close>

definition all_topics_lower :: "string list \<Rightarrow> string list" where
  "all_topics_lower all_topics =
     map str_lower (filter (\<lambda>string. length (str_split string) = 1) all_topics)"

definition unique_topics :: "string list \<Rightarrow> string set" where
  "unique_topics all_topics = set (all_topics_lower all_topics)"

section \<open>Vocabulary of the statements\<close>

text \<open>The service answers the \<open>n\<close>-th call with a response that has a first choice,
  or fails it with the error \<open>e\<close>, whatever request the call carries.\<close>

definition answers :: "service \<Rightarrow> nat \<Rightarrow> bool" where
  "answers svc n = (\<forall>r. \<exists>resp txt. svc n r = Inr resp \<and> first_content resp = Inr txt)"

definition fails_with :: "service \<Rightarrow> nat \<Rightarrow> error \<Rightarrow> bool" where
  "fails_with svc n e = (\<forall>r. svc n r = Inl e)"

text \<open>The content of the first choice of the answer to the \<open>n\<close>-th call (empty where
  there is none).\<close>

definition content_at :: "service \<Rightarrow> nat \<Rightarrow> request \<Rightarrow> string" where
  "content_at svc n r =
     (case svc n r of
        Inl e \<Rightarrow> []
      | Inr resp \<Rightarrow> (case first_content resp of Inl e \<Rightarrow> [] | Inr txt \<Rightarrow> txt))"

text \<open>The specification's reading of the user message, for comparison with
  \<^const>\<open>build_user_message\<close>: the rows joined by the delimiter, which stands between
  consecutive rows only.\<close>

fun join_rows :: "string \<Rightarrow> string list \<Rightarrow> string" where
  "join_rows delimiter [] = []"
| "join_rows delimiter [row] = row"
| "join_rows delimiter (row # rows) = row @ delimiter @ join_rows delimiter rows"

text \<open>The specification's reading of the repair step on one response: append \<open>]\<close>
  if and only if the last character is not \<open>]\<close>.\<close>

definition close_bracket :: "string \<Rightarrow> string" where
  "close_bracket r = (if last r = CHR '']'' then r else r @ '']'')"

text \<open>The start offsets of the batches as the specification describes them: \<open>0\<close>,
  \<open>batch_size\<close>, \<open>2 * batch_size\<close>, ..., one for each of the \<open>ceil(N / batch_size)\<close>
  batches.\<close>

definition batch_offsets :: "string list \<Rightarrow> int \<Rightarrow> int list" where
  "batch_offsets df batch_size =
     map (\<lambda>k. int k * batch_size) [0..<nat \<lceil>real (length df) / real_of_int batch_size\<rceil>]"

text \<open>Concrete services and random draws for the scenarios: a service that follows a script
  of failures by call number and otherwise answers with one choice, and a draw that is
  always one half.\<close>

definition reply :: "string \<Rightarrow> response" where
  "reply txt = \<lparr>choices = [\<lparr>message = \<lparr>role = ''assistant'', content = txt\<rparr>\<rparr>]\<rparr>"

definition scripted_service :: "(nat \<Rightarrow> error option) \<Rightarrow> service" where
  "scripted_service script n r = (case script n of Some e \<Rightarrow> Inl e | None \<Rightarrow> Inr (reply ''ok''))"

definition no_failure :: "nat \<Rightarrow> error option" where
  "no_failure n = None"

definition half_jitter :: "nat \<Rightarrow> real" where
  "half_jitter n = 1 / 2"

text \<open>Failure scripts: every call fails; the calls with the listed numbers fail; every
  \<open>p\<close>-th call fails.\<close>

definition always_failing :: "error \<Rightarrow> nat \<Rightarrow> error option" where
  "always_failing e n = Some e"

definition failing_at :: "nat list \<Rightarrow> error \<Rightarrow> nat \<Rightarrow> error option" where
  "failing_at ns e n = (if n \<in> set ns then Some e else None)"


section \<open>Auxiliary facts\<close>

lemma getitem_last:
  "getitem r (int (length r) - 1) = (if r = [] then Inl IndexError else Inr (last r))"
  by (cases r rule: rev_cases) (auto simp: getitem_def Let_def nth_append)

lemma getitem_empty: "getitem [] i = Inl IndexError"
  by (simp add: getitem_def)

lemma build_user_message_concat:
  "build_user_message d batch acc = acc @ concat (map (\<lambda>row. row @ d) batch)"
  by (induction batch arbitrary: acc) simp_all

lemma concat_delimited_join:
  "batch \<noteq> [] \<Longrightarrow> concat (map (\<lambda>row. row @ d) batch) = join_rows d batch @ d"
  by (induction d batch rule: join_rows.induct) simp_all

lemma bracket_repair_nonempty:
  "\<forall>r\<in>set rs. r \<noteq> [] \<Longrightarrow>
   bracket_repair rs = (map close_bracket rs, None)"
  by (induction rs) (simp_all add: getitem_last close_bracket_def)

lemma bracket_repair_empty_string:
  "\<forall>r\<in>set rs. r \<noteq> [] \<Longrightarrow>
   bracket_repair (rs @ [] # rest) =
     (map close_bracket rs @ [] # rest, Some IndexError)"
  by (induction rs) (simp_all add: getitem_last getitem_empty close_bracket_def)

lemma close_bracket_ends: "r \<noteq> [] \<Longrightarrow> close_bracket r \<noteq> [] \<and> last (close_bracket r) = CHR '']''"
  by (simp add: close_bracket_def)

lemma close_bracket_fixed: "last r = CHR '']'' \<Longrightarrow> close_bracket r = r"
  by (simp add: close_bracket_def)

lemma repaired_all_closed:
  "\<forall>r\<in>set rs. r \<noteq> [] \<Longrightarrow> \<forall>r\<in>set (map close_bracket rs). r \<noteq> [] \<and> last r = CHR '']''"
  using close_bracket_ends by auto

lemma close_bracket_twice:
  "\<forall>r\<in>set rs. r \<noteq> [] \<Longrightarrow> map close_bracket (map close_bracket rs) = map close_bracket rs"
  using close_bracket_ends close_bracket_fixed by (intro map_idI) auto

lemma bracket_repair_again:
  "\<forall>r\<in>set rs. r \<noteq> [] \<Longrightarrow> bracket_repair (map close_bracket rs) = (map close_bracket rs, None)"
  using bracket_repair_nonempty[of "map close_bracket rs"] repaired_all_closed[of rs] close_bracket_twice[of rs]
  by simp

lemma create_answers:
  "answers svc (length (calls w)) \<Longrightarrow>
   \<exists>resp. ChatCompletion_create svc r w = (Inr resp, w\<lparr>calls := calls w @ [r]\<rparr>)
      \<and> first_content resp = Inr (content_at svc (length (calls w)) r)"
  unfolding answers_def ChatCompletion_create_def content_at_def
  by (metis (mono_tags, lifting) old.sum.simps(6))

lemma create_fails:
  "fails_with svc (length (calls w)) e \<Longrightarrow>
   ChatCompletion_create svc r w = (Inl e, w\<lparr>calls := calls w @ [r]\<rparr>)"
  by (simp add: fails_with_def ChatCompletion_create_def)

lemma batch_loop_ok:
  "(\<forall>j<length offs. answers svc (length (calls w) + j)) \<Longrightarrow>
   batch_loop svc req_of offs acc w =
     (Inr (acc @ map (\<lambda>(j, i). content_at svc j (req_of i)) (enumerate (length (calls w)) offs)),
      w\<lparr>calls := calls w @ map req_of offs\<rparr>)"
proof (induction offs arbitrary: acc w)
  case Nil
  then show ?case by simp
next
  case (Cons i offs)
  from Cons.prems have a0: "answers svc (length (calls w))" by auto
  from create_answers[OF a0] obtain resp where
    c: "ChatCompletion_create svc (req_of i) w = (Inr resp, w\<lparr>calls := calls w @ [req_of i]\<rparr>)"
    and f: "first_content resp = Inr (content_at svc (length (calls w)) (req_of i))" by blast
  let ?w = "w\<lparr>calls := calls w @ [req_of i]\<rparr>"
  have "\<forall>j<length offs. answers svc (length (calls ?w) + j)"
    using Cons.prems by auto
  from Cons.IH[OF this] show ?case
    by (simp add: c f)
qed

lemma batch_loop_fail:
  "k < length offs \<Longrightarrow> (\<forall>j<k. answers svc (length (calls w) + j)) \<Longrightarrow>
   fails_with svc (length (calls w) + k) e \<Longrightarrow>
   batch_loop svc req_of offs acc w = (Inl e, w\<lparr>calls := calls w @ map req_of (take (Suc k) offs)\<rparr>)"
proof (induction offs arbitrary: k acc w)
  case Nil
  then show ?case by simp
next
  case (Cons i offs)
  show ?case
  proof (cases k)
    case 0
    with Cons.prems show ?thesis by (simp add: create_fails)
  next
    case (Suc k')
    from Cons.prems Suc have a0: "answers svc (length (calls w))" by auto
    from create_answers[OF a0] obtain resp where
      c: "ChatCompletion_create svc (req_of i) w = (Inr resp, w\<lparr>calls := calls w @ [req_of i]\<rparr>)"
      and f: "first_content resp = Inr (content_at svc (length (calls w)) (req_of i))" by blast
    let ?w = "w\<lparr>calls := calls w @ [req_of i]\<rparr>"
    have 1: "k' < length offs" using Cons.prems Suc by simp
    have 2: "\<forall>j<k'. answers svc (length (calls ?w) + j)" using Cons.prems Suc by auto
    have 3: "fails_with svc (length (calls ?w) + k') e" using Cons.prems Suc by simp
    from Cons.IH[OF 1 2 3] show ?thesis by (simp add: c f Suc)
  qed
qed

lemma neg_div_neg:
  fixes N B :: int
  assumes "0 < B"
  shows "- (- N div B) = (N - 1) div B + 1"
proof -
  define q r where "q = (N - 1) div B" and "r = (N - 1) mod B"
  have "N - 1 = B * q + r" by (simp add: q_def r_def)
  hence e: "- N = B * (- q - 1) + (B - 1 - r)" by (simp add: algebra_simps)
  have "0 \<le> r" "r < B" using assms by (simp_all add: r_def)
  hence "(- N) div B = - q - 1" using int_div_pos_eq[OF e] by simp
  thus ?thesis by (simp add: q_def)
qed

lemma ceiling_batches:
  assumes "0 < B"
  shows "\<lceil>real N / real_of_int B\<rceil> = (if 0 < int N then (int N - 1) div B + 1 else 0)"
proof -
  have "\<lceil>real N / real_of_int B\<rceil> = \<lceil>real_of_int (int N) / real_of_int B\<rceil>" by simp
  also have "\<dots> = - (- int N div B)" by (rule ceiling_divide_eq_div)
  also have "\<dots> = (int N - 1) div B + 1" by (rule neg_div_neg[OF assms])
  finally show ?thesis using assms by (cases "N = 0") simp_all
qed

lemma range_py_pos:
  assumes "0 < B"
  shows "range_py 0 (int N) B = Inr (map (\<lambda>k. int k * B) [0..<nat \<lceil>real N / real_of_int B\<rceil>])"
  using assms by (simp add: range_py_def ceiling_batches Let_def)

lemma iloc_batch:
  assumes "0 < B"
  shows "iloc df (int k * B) (int k * B + B) = take (nat B) (drop (k * nat B) df)"
proof -
  have a: "nat (int k * B) = k * nat B" using assms by (simp add: nat_mult_distrib)
  have c: "0 \<le> int k * B" using assms by simp
  have b: "nat (int k * B + B) = k * nat B + nat B" using assms c by (simp add: nat_add_distrib a)
  have d: "\<not> int k * B < 0" "\<not> int k * B + B < 0" using assms c by linarith+
  show ?thesis
    by (simp add: iloc_def slice_bound_def Let_def d a b min_def)
qed

lemma concat_batches_take:
  "concat (map (\<lambda>k. take b (drop (k * b) xs)) [0..<m]) = take (m * b) xs"
proof (induction m)
  case 0
  then show ?case by simp
next
  case (Suc m)
  have "Suc m * b = m * b + b" by simp
  hence "take (Suc m * b) xs = take (m * b) xs @ take b (drop (m * b) xs)"
    by (simp only: take_add)
  with Suc show ?case by simp
qed

lemma batches_cover:
  assumes "0 < B"
  shows "length df \<le> nat \<lceil>real (length df) / real_of_int B\<rceil> * nat B"
proof (cases "length df = 0")
  case True
  then show ?thesis by simp
next
  case False
  let ?N = "int (length df)"
  define q r where "q = (?N - 1) div B" and "r = (?N - 1) mod B"
  have "?N - 1 = q * B + r" by (simp add: q_def r_def)
  moreover have "r < B" using assms by (simp add: r_def)
  ultimately have "?N \<le> (q + 1) * B" by (simp add: algebra_simps)
  hence le: "?N \<le> ((?N - 1) div B + 1) * B" by (simp add: q_def)
  have q: "0 \<le> (?N - 1) div B + 1" using assms False by (simp add: pos_imp_zdiv_nonneg_iff)
  have "length df = nat ?N" by simp
  also have "\<dots> \<le> nat (((?N - 1) div B + 1) * B)" using le by (rule nat_mono)
  also have "\<dots> = nat ((?N - 1) div B + 1) * nat B" using q by (simp add: nat_mult_distrib)
  finally show ?thesis using False assms by (simp add: ceiling_batches)
qed

lemma concat_batches:
  assumes "0 < B"
  shows "concat (map (\<lambda>i. iloc df i (i + B)) (map (\<lambda>k. int k * B) [0..<nat \<lceil>real (length df) / real_of_int B\<rceil>])) = df"
  using assms batches_cover[OF assms, of df]
  by (simp add: o_def iloc_batch concat_batches_take)

lemma retry_returns:
  "fn w = (Inr v, w') \<Longrightarrow> retry ri wait mx rr fn n w = (Inr v, w')"
  by (subst retry.simps) simp

lemma retry_again:
  "fn w = (Inl e, w') \<Longrightarrow> ri e \<Longrightarrow> n < mx \<Longrightarrow>
   retry ri wait mx rr fn n w = retry ri wait mx rr fn (Suc n) (w'\<lparr>sleeps := sleeps w' @ [wait n]\<rparr>)"
  by (subst retry.simps) (simp add: stop_after_attempt_def)

lemma retry_gives_up:
  "fn w = (Inl e, w') \<Longrightarrow> ri e \<Longrightarrow> mx \<le> n \<Longrightarrow>
   retry ri wait mx rr fn n w = (if rr then (Inl e, w') else (Inl (RetryError e), w'))"
  by (subst retry.simps) (simp add: stop_after_attempt_def)

lemma retry_exhausted:
  assumes "n \<le> mx"
    and "\<forall>j. n \<le> j \<and> j \<le> mx \<longrightarrow> fn (W j) = (Inl (E j), V j) \<and> ri (E j)"
    and "\<forall>j. n \<le> j \<and> j < mx \<longrightarrow> W (Suc j) = (V j)\<lparr>sleeps := sleeps (V j) @ [wait j]\<rparr>"
  shows "retry ri wait mx False fn n (W n) = (Inl (RetryError (E mx)), V mx)"
  using assms
proof (induction "mx - n" arbitrary: n)
  case 0
  then have "n = mx" by simp
  with "0.prems" show ?case by (simp add: retry_gives_up)
next
  case (Suc d)
  then have lt: "n < mx" by simp
  have f: "fn (W n) = (Inl (E n), V n)" and r: "ri (E n)" using Suc.prems by auto
  have "retry ri wait mx False fn n (W n) = retry ri wait mx False fn (Suc n) (W (Suc n))"
    using retry_again[of fn "W n" "E n" "V n" ri n mx wait False] f r lt Suc.prems(3) by simp
  also have "\<dots> = (Inl (RetryError (E mx)), V mx)"
    using Suc.hyps Suc.prems lt by (intro Suc.hyps(1)) auto
  finally show ?case .
qed

lemma retry_preserves:
  assumes "P w" and "\<And>w. P w \<Longrightarrow> P (snd (fn w))" and "\<And>w x. P w \<Longrightarrow> P (w\<lparr>sleeps := x\<rparr>)"
  shows "P (snd (retry ri wait mx rr fn n w))"
  using assms
proof (induction ri wait mx rr fn n w rule: retry.induct)
  case (1 ri wait mx rr fn n w)
  obtain res w' where fw: "fn w = (res, w')" by (cases "fn w")
  have "snd (fn w) = w'" using fw by simp
  then have pw': "P w'" using "1.prems"(2)[OF "1.prems"(1)] by simp
  show ?case
  proof (cases res)
    case (Inr v)
    with fw pw' show ?thesis by (simp add: retry_returns)
  next
    case (Inl e)
    show ?thesis
    proof (cases "ri e \<and> \<not> stop_after_attempt mx n")
      case True
      have "P (w'\<lparr>sleeps := sleeps w' @ [wait n]\<rparr>)" using pw' by (rule "1.prems"(3))
      then have "P (snd (retry ri wait mx rr fn (n + 1) (w'\<lparr>sleeps := sleeps w' @ [wait n]\<rparr>)))"
        using "1.IH"[OF fw[symmetric] Inl] True "1.prems"(2,3) by blast
      then show ?thesis using fw Inl True by (subst retry.simps) simp
    next
      case False
      then show ?thesis using fw Inl pw' by (subst retry.simps) auto
    qed
  qed
qed

lemma batch_body_zero: "batch_body svc df sm 0 mdl temp mt w = (Inl ValueError, w)"
  by (simp add: batch_body_def range_py_def)

lemma batch_body_negative: "B < 0 \<Longrightarrow> batch_body svc df sm B mdl temp mt w = (Inr [], w)"
  by (simp add: batch_body_def range_py_def)

lemma retry_same_failure:
  assumes "\<And>w. fn w = (Inl e, w)" and "1 \<le> mx"
  shows "retry retry_if_exception_type wait mx False fn 1 world0
         = (Inl (RetryError e), \<lparr>calls = [], sleeps = map wait [1..<mx]\<rparr>)"
proof -
  define W where "W j = \<lparr>calls = [], sleeps = map wait [1..<j]\<rparr>" for j
  have "retry retry_if_exception_type wait mx False fn 1 (W 1) = (Inl (RetryError ((\<lambda>j. e) mx)), W mx)"
  proof (rule retry_exhausted)
    show "1 \<le> mx" by fact
    show "\<forall>j. 1 \<le> j \<and> j \<le> mx \<longrightarrow> fn (W j) = (Inl e, W j) \<and> retry_if_exception_type e"
      by (simp add: assms(1) retry_if_exception_type_def)
    show "\<forall>j. 1 \<le> j \<and> j < mx \<longrightarrow> W (Suc j) = (W j)\<lparr>sleeps := sleeps (W j) @ [wait j]\<rparr>"
      by (simp add: W_def)
  qed
  then show ?thesis by (simp add: W_def world0_def)
qed

lemma batch_body_all_answered:
  assumes "1 \<le> B" and "\<forall>n. answers svc n"
  shows "batch_body svc df sm B mdl temp mt world0
     = (Inr (map (\<lambda>(j, i). content_at svc j (batch_request df sm B mdl temp mt i)) (enumerate 0 (batch_offsets df B))),
        \<lparr>calls = map (batch_request df sm B mdl temp mt) (batch_offsets df B), sleeps = []\<rparr>)"
proof -
  have B: "0 < B" using assms(1) by simp
  have r: "range_py 0 (int (length df)) B = Inr (batch_offsets df B)"
    unfolding batch_offsets_def by (rule range_py_pos[OF B])
  have "\<forall>j<length (batch_offsets df B). answers svc (length (calls world0) + j)"
    using assms(2) by simp
  from batch_loop_ok[OF this, of "batch_request df sm B mdl temp mt" "[]"]
  show ?thesis by (simp add: batch_body_def r world0_def)
qed

lemma answers_no_failure: "answers (scripted_service no_failure) n"
  by (simp add: answers_def scripted_service_def no_failure_def reply_def first_content_def getitem_def)

lemma batch_request_messages_eq:
  "messages (batch_request df sm B mdl temp mt i) =
     [\<lparr>role = ''system'', content = sm\<rparr>,
      \<lparr>role = ''user'', content = concat (map (\<lambda>row. row @ ''####'') (iloc df i (i + B)))\<rparr>]"
  by (simp add: batch_request_def Let_def build_user_message_concat)

lemma wait_exponential_bounds:
  "30 \<le> wait_exponential 30 60 n \<and> wait_exponential 30 60 n \<le> 60"
  by (simp add: wait_exponential_def)

lemma wait_exponential_mono:
  "m \<le> n \<Longrightarrow> wait_exponential 30 60 m \<le> wait_exponential 30 60 n"
proof -
  assume "m \<le> n"
  then have p: "(2::real) ^ (m - 1) \<le> 2 ^ (n - 1)" by (intro power_increasing) auto
  have "max (max 0 30) (min a 60) \<le> max (max 0 30) (min b (60::real))" if "a \<le> b" for a b
    using that by auto
  from this[OF p] show ?thesis unfolding wait_exponential_def .
qed

lemma wait_exponential_ceiling:
  assumes "7 \<le> n" shows "wait_exponential 30 60 n = 60"
proof -
  have "(2::real) ^ 6 \<le> 2 ^ (n - 1)" using assms by (intro power_increasing) auto
  then have "(60::real) \<le> 2 ^ (n - 1)" by simp
  then show ?thesis by (simp add: wait_exponential_def)
qed

lemma batch_helper_all_answered:
  assumes "1 \<le> B" and "\<forall>n. answers svc n"
  shows "get_completion_from_messages_batch svc rnd df sm B mdl temp mt world0
     = (Inr (map (\<lambda>(j, i). content_at svc j (batch_request df sm B mdl temp mt i)) (enumerate 0 (batch_offsets df B))),
        \<lparr>calls = map (batch_request df sm B mdl temp mt) (batch_offsets df B), sleeps = []\<rparr>)"
  unfolding get_completion_from_messages_batch_def
  by (rule retry_returns) (rule batch_body_all_answered[OF assms])

lemma first_content_Cons: "choices resp = c # cs \<Longrightarrow> first_content resp = Inr (content (message c))"
  by (simp add: first_content_def getitem_def)

lemma first_content_InrD:
  "first_content resp = Inr txt \<Longrightarrow> \<exists>c cs. choices resp = c # cs \<and> txt = content (message c)"
  by (cases "choices resp") (auto simp: first_content_def getitem_def)

lemma answers_content_at:
  assumes "answers svc n"
  shows "\<exists>resp c cs. svc n r = Inr resp \<and> choices resp = c # cs \<and> content_at svc n r = content (message c)"
proof -
  from assms obtain resp body where s: "svc n r = Inr resp" and f: "first_content resp = Inr body"
    unfolding answers_def by blast
  from first_content_InrD[OF f] obtain c cs where "choices resp = c # cs" "body = content (message c)"
    by blast
  with s f show ?thesis by (auto simp: content_at_def)
qed

lemma batch_loop_calls_invariant:
  "\<forall>r\<in>set (calls w). Q r \<Longrightarrow> \<forall>i. Q (req_of i) \<Longrightarrow>
   \<forall>r\<in>set (calls (snd (batch_loop svc req_of offs acc w))). Q r"
proof (induction offs arbitrary: acc w)
  case Nil
  then show ?case by simp
next
  case (Cons i offs)
  let ?w = "w\<lparr>calls := calls w @ [req_of i]\<rparr>"
  have q: "\<forall>r\<in>set (calls ?w). Q r" using Cons.prems by simp
  show ?case
  proof (cases "svc (length (calls w)) (req_of i)")
    case (Inl e)
    then show ?thesis using q by (simp add: ChatCompletion_create_def)
  next
    case (Inr resp)
    show ?thesis
    proof (cases "first_content resp")
      case (Inl e)
      then show ?thesis using q Inr by (simp add: ChatCompletion_create_def)
    next
      case r: (Inr body)
      from Cons.IH[OF q Cons.prems(2), of "acc @ [body]"] show ?thesis
        using Inr r by (simp add: ChatCompletion_create_def)
    qed
  qed
qed

lemma batch_body_calls_invariant:
  assumes "\<forall>r\<in>set (calls w). temperature r = temp \<and> max_tokens r = mt"
  shows "\<forall>r\<in>set (calls (snd (batch_body svc df sm B mdl temp mt w))). temperature r = temp \<and> max_tokens r = mt"
proof (cases "range_py 0 (int (length df)) B")
  case (Inl e)
  then show ?thesis using assms by (simp add: batch_body_def)
next
  case (Inr offs)
  have "\<forall>i. temperature (batch_request df sm B mdl temp mt i) = temp
           \<and> max_tokens (batch_request df sm B mdl temp mt i) = mt"
    by (simp add: batch_request_def Let_def)
  from batch_loop_calls_invariant[where Q = "\<lambda>r. temperature r = temp \<and> max_tokens r = mt", OF assms this]
  show ?thesis using Inr by (simp add: batch_body_def)
qed

lemma batch_helper_calls_invariant:
  "\<forall>r\<in>set (calls (snd (get_completion_from_messages_batch svc rnd df sm B mdl temp mt world0))).
      temperature r = temp \<and> max_tokens r = mt"
  unfolding get_completion_from_messages_batch_def
proof (rule retry_preserves[where P = "\<lambda>w. \<forall>r\<in>set (calls w). temperature r = temp \<and> max_tokens r = mt"])
  show "\<forall>r\<in>set (calls world0). temperature r = temp \<and> max_tokens r = mt" by (simp add: world0_def)
  show "\<forall>r\<in>set (calls (snd (batch_body svc df sm B mdl temp mt w))). temperature r = temp \<and> max_tokens r = mt"
    if "\<forall>r\<in>set (calls w). temperature r = temp \<and> max_tokens r = mt" for w
    using that by (rule batch_body_calls_invariant)
  show "\<forall>r\<in>set (calls (w\<lparr>sleeps := x\<rparr>)). temperature r = temp \<and> max_tokens r = mt"
    if "\<forall>r\<in>set (calls w). temperature r = temp \<and> max_tokens r = mt" for w :: world and x
    using that by simp
qed

lemma length_concat_replicate: "length (concat (replicate n xs)) = n * length xs"
  by (induction n) simp_all

lemma concat_replicate_snoc: "concat (replicate n xs) @ xs = concat (replicate (Suc n) xs)"
  by (induction n) simp_all

lemma mod_offset: "i < n \<Longrightarrow> (m * n + i) mod n = (i::nat)"
  by simp

lemma batch_body_fails_at:
  assumes "1 \<le> B" and "k < length (batch_offsets df B)"
    and "\<forall>j<k. answers svc (length (calls w) + j)"
    and "fails_with svc (length (calls w) + k) e"
  shows "batch_body svc df sm B mdl temp mt w
     = (Inl e, w\<lparr>calls := calls w @ map (batch_request df sm B mdl temp mt) (take (Suc k) (batch_offsets df B))\<rparr>)"
proof -
  have B: "0 < B" using assms(1) by simp
  have r: "range_py 0 (int (length df)) B = Inr (batch_offsets df B)"
    unfolding batch_offsets_def by (rule range_py_pos[OF B])
  show ?thesis
    by (simp add: batch_body_def r batch_loop_fail[OF assms(2,3,4)])
qed

lemma batch_body_answered_from:
  assumes "1 \<le> B" and "\<forall>j<length (batch_offsets df B). answers svc (length (calls w) + j)"
  shows "batch_body svc df sm B mdl temp mt w
     = (Inr (map (\<lambda>(j, i). content_at svc j (batch_request df sm B mdl temp mt i))
               (enumerate (length (calls w)) (batch_offsets df B))),
        w\<lparr>calls := calls w @ map (batch_request df sm B mdl temp mt) (batch_offsets df B)\<rparr>)"
proof -
  have B: "0 < B" using assms(1) by simp
  have r: "range_py 0 (int (length df)) B = Inr (batch_offsets df B)"
    unfolding batch_offsets_def by (rule range_py_pos[OF B])
  show ?thesis
    using batch_loop_ok[OF assms(2), of "batch_request df sm B mdl temp mt" "[]"]
    by (simp add: batch_body_def r)
qed

lemma batch_helper_exhausted:
  assumes "1 \<le> B" and k: "k < length (batch_offsets df B)"
    and ans: "\<forall>n. n mod Suc k \<noteq> k \<longrightarrow> answers svc n"
    and fls: "\<forall>n. n mod Suc k = k \<longrightarrow> fails_with svc n (err n)"
  shows "get_completion_from_messages_batch svc rnd df sm B mdl temp mt world0
     = (Inl (RetryError (err (5 * Suc k + k))),
        \<lparr>calls = concat (replicate 6 (map (batch_request df sm B mdl temp mt) (take (Suc k) (batch_offsets df B)))),
         sleeps = map (\<lambda>n. wait_random_exponential 30 60 (rnd n) n) [1..<6]\<rparr>)"
proof -
  let ?wait = "\<lambda>n. wait_random_exponential 30 60 (rnd n) n"
  let ?cs = "map (batch_request df sm B mdl temp mt) (take (Suc k) (batch_offsets df B))"
  define W where "W j = \<lparr>calls = concat (replicate (j - 1) ?cs), sleeps = map ?wait [1..<j]\<rparr>" for j
  define V where "V j = \<lparr>calls = concat (replicate j ?cs), sleeps = map ?wait [1..<j]\<rparr>" for j
  define E where "E j = err ((j - 1) * Suc k + k)" for j
  have len: "length ?cs = Suc k" using k by simp
  have lw: "length (calls (W j)) = (j - 1) * Suc k" for j
    unfolding W_def by (simp only: world.simps length_concat_replicate len)
  have body: "batch_body svc df sm B mdl temp mt (W j) = (Inl (E j), V j)" if "1 \<le> j" for j
  proof -
    have a: "\<forall>i<k. answers svc (length (calls (W j)) + i)"
    proof (intro allI impI)
      fix i assume "i < k"
      then have "((j - 1) * Suc k + i) mod Suc k \<noteq> k"
        using mod_offset[of i "Suc k" "j - 1"] by linarith
      with ans show "answers svc (length (calls (W j)) + i)" unfolding lw by blast
    qed
    have "((j - 1) * Suc k + k) mod Suc k = k" by (rule mod_offset) simp
    with fls have f: "fails_with svc (length (calls (W j)) + k) (E j)" unfolding lw E_def by blast
    have "Suc (j - 1) = j" using that by simp
    then have "(W j)\<lparr>calls := calls (W j) @ ?cs\<rparr> = V j"
      by (simp add: W_def V_def concat_replicate_snoc del: replicate.simps)
    with batch_body_fails_at[OF assms(1) k a f, of sm mdl temp mt] show ?thesis by simp
  qed
  have "retry retry_if_exception_type ?wait 6 False (batch_body svc df sm B mdl temp mt) 1 (W 1)
          = (Inl (RetryError (E 6)), V 6)"
  proof (rule retry_exhausted)
    show "(1::nat) \<le> 6" by simp
    show "\<forall>j. 1 \<le> j \<and> j \<le> 6 \<longrightarrow>
            batch_body svc df sm B mdl temp mt (W j) = (Inl (E j), V j) \<and> retry_if_exception_type (E j)"
      by (simp add: body retry_if_exception_type_def)
    show "\<forall>j. 1 \<le> j \<and> j < 6 \<longrightarrow> W (Suc j) = (V j)\<lparr>sleeps := sleeps (V j) @ [?wait j]\<rparr>"
      by (simp add: W_def V_def)
  qed
  moreover have "W 1 = world0" by (simp add: W_def world0_def)
  ultimately show ?thesis
    by (simp add: get_completion_from_messages_batch_def reraise_default_def V_def E_def)
qed

lemma batch_helper_third_attempt:
  assumes B: "1 \<le> B" and k: "k < length (batch_offsets df B)"
    and f1: "fails_with svc k e1" and f2: "fails_with svc (2 * k + 1) e2"
    and ans: "\<forall>n. n \<noteq> k \<and> n \<noteq> 2 * k + 1 \<longrightarrow> answers svc n"
  shows "get_completion_from_messages_batch svc rnd df sm B mdl temp mt world0
     = (Inr (map (\<lambda>(j, i). content_at svc j (batch_request df sm B mdl temp mt i))
               (enumerate (2 * Suc k) (batch_offsets df B))),
        \<lparr>calls = map (batch_request df sm B mdl temp mt) (take (Suc k) (batch_offsets df B))
                 @ map (batch_request df sm B mdl temp mt) (take (Suc k) (batch_offsets df B))
                 @ map (batch_request df sm B mdl temp mt) (batch_offsets df B),
         sleeps = [wait_random_exponential 30 60 (rnd 1) 1, wait_random_exponential 30 60 (rnd 2) 2]\<rparr>)"
proof -
  let ?wait = "\<lambda>n. wait_random_exponential 30 60 (rnd n) n"
  let ?req = "batch_request df sm B mdl temp mt"
  let ?offs = "batch_offsets df B"
  let ?cs = "map ?req (take (Suc k) ?offs)"
  let ?body = "batch_body svc df sm B mdl temp mt"
  let ?retry = "retry retry_if_exception_type ?wait 6 reraise_default ?body"
  define V1 where "V1 = \<lparr>calls = ?cs, sleeps = []\<rparr>"
  define W2 where "W2 = \<lparr>calls = ?cs, sleeps = [?wait 1]\<rparr>"
  define V2 where "V2 = \<lparr>calls = ?cs @ ?cs, sleeps = [?wait 1]\<rparr>"
  define W3 where "W3 = \<lparr>calls = ?cs @ ?cs, sleeps = [?wait 1, ?wait 2]\<rparr>"
  have len: "length ?cs = Suc k" using k by simp
  have l2: "length (calls W2) = Suc k" unfolding W2_def by (simp only: world.simps len)
  have l3: "length (calls W3) = 2 * Suc k" unfolding W3_def by (simp only: world.simps length_append len) simp
  have r: "retry_if_exception_type e" for e by (simp add: retry_if_exception_type_def)
  \<comment> \<open>first attempt\<close>
  have "\<forall>j<k. answers svc (length (calls world0) + j)" using ans by (simp add: world0_def)
  moreover have "fails_with svc (length (calls world0) + k) e1" using f1 by (simp add: world0_def)
  ultimately have "?body world0 = (Inl e1, world0\<lparr>calls := calls world0 @ ?cs\<rparr>)"
    by (rule batch_body_fails_at[OF B k])
  then have b1: "?body world0 = (Inl e1, V1)" by (simp add: world0_def V1_def)
  have w2: "V1\<lparr>sleeps := sleeps V1 @ [?wait 1]\<rparr> = W2" by (simp add: V1_def W2_def)
  have lt1: "(1::nat) < 6" and n2: "Suc 1 = 2" by simp_all
  have s1: "?retry 1 world0 = ?retry 2 W2"
    using retry_again[of ?body world0 e1 V1 retry_if_exception_type 1 6 ?wait reraise_default, OF b1 r lt1]
    unfolding w2 n2 .
  \<comment> \<open>second attempt\<close>
  have a2: "\<forall>j<k. answers svc (length (calls W2) + j)" unfolding l2 using ans by simp
  have "Suc k + k = 2 * k + 1" by simp
  then have x2: "fails_with svc (length (calls W2) + k) e2" unfolding l2 using f2 by (simp only:)
  have "?body W2 = (Inl e2, W2\<lparr>calls := calls W2 @ ?cs\<rparr>)"
    using a2 x2 by (rule batch_body_fails_at[OF B k])
  then have b2: "?body W2 = (Inl e2, V2)" by (simp add: W2_def V2_def)
  have w3: "V2\<lparr>sleeps := sleeps V2 @ [?wait 2]\<rparr> = W3" by (simp add: V2_def W3_def)
  have lt2: "(2::nat) < 6" and n3: "Suc 2 = 3" by simp_all
  have s2: "?retry 2 W2 = ?retry 3 W3"
    using retry_again[of ?body W2 e2 V2 retry_if_exception_type 2 6 ?wait reraise_default, OF b2 r lt2]
    unfolding w3 n3 .
  \<comment> \<open>third attempt\<close>
  have "\<forall>j<length ?offs. answers svc (length (calls W3) + j)" unfolding l3 using ans by simp
  from batch_body_answered_from[OF B this, of sm mdl temp mt]
  have b3: "?body W3 = (Inr (map (\<lambda>(j, i). content_at svc j (?req i)) (enumerate (2 * Suc k) ?offs)),
                        W3\<lparr>calls := calls W3 @ map ?req ?offs\<rparr>)"
    unfolding l3 .
  have s3: "?retry 3 W3 = (Inr (map (\<lambda>(j, i). content_at svc j (?req i)) (enumerate (2 * Suc k) ?offs)),
                        W3\<lparr>calls := calls W3 @ map ?req ?offs\<rparr>)"
    using b3 by (rule retry_returns)
  show ?thesis
    unfolding get_completion_from_messages_batch_def s1 s2 s3
    by (simp add: W3_def)
qed


lemma offsets_nonempty:
  assumes "1 \<le> B" and "df \<noteq> []"
  shows "0 < length (batch_offsets df B)" and "take (Suc 0) (batch_offsets df B) = [0]"
proof -
  have "0 < real (length df) / real_of_int B" using assms by simp
  then have "0 < \<lceil>real (length df) / real_of_int B\<rceil>" by simp
  then obtain m where m: "nat \<lceil>real (length df) / real_of_int B\<rceil> = Suc m"
    by (metis Suc_pred zero_less_nat_eq)
  show "0 < length (batch_offsets df B)" by (simp add: batch_offsets_def m)
  show "take (Suc 0) (batch_offsets df B) = [0]"
    by (simp add: batch_offsets_def m upt_conv_Cons del: upt_Suc)
qed

lemma flaky_script:
  "fails_with (scripted_service (failing_at [1, 3] RateLimitError)) 1 RateLimitError"
  "fails_with (scripted_service (failing_at [1, 3] RateLimitError)) (2 * 1 + 1) RateLimitError"
  "\<forall>n. n \<noteq> 1 \<and> n \<noteq> 2 * 1 + 1 \<longrightarrow> answers (scripted_service (failing_at [1, 3] RateLimitError)) n"
  by (simp_all add: fails_with_def answers_def scripted_service_def failing_at_def reply_def
        first_content_def getitem_def)

lemma offsets_ab: "batch_offsets [''a'', ''b''] 1 = [0, 1]"
  by (simp add: batch_offsets_def upt_rec)

lemma upt_1_6: "[1..<6] = [1, 2, 3, 4, 5::nat]"
  by (simp add: upt_conv_Cons)

lemma concat_replicate_single: "concat (replicate n [x]) = replicate n x"
  by (induction n) simp_all



lemma batch_request_eq:
  "batch_request df sm B mdl temp mt i =
     \<lparr>model = mdl,
      messages = [\<lparr>role = ''system'', content = sm\<rparr>,
                  \<lparr>role = ''user'',
                   content = concat (map (\<lambda>row. row @ ''####'') (iloc df i (i + B)))\<rparr>],
      temperature = temp, max_tokens = mt\<rparr>"
  by (simp add: batch_request_def Let_def build_user_message_concat)

lemma concat_map_slices:
  "concat (map (\<lambda>i. concat (map f (g i))) offs) = concat (map f (concat (map g offs)))"
  by (induction offs) simp_all

lemma map_enumerate_map:
  "map (\<lambda>(j, r). h j r) (enumerate n (map f xs)) = map (\<lambda>(j, i). h j (f i)) (enumerate n xs)"
  by (induction xs arbitrary: n) simp_all

lemma batch_helper_no_rows:
  assumes "1 \<le> B"
  shows "get_completion_from_messages_batch svc rnd [] sm B mdl temp mt world0 = (Inr [], world0)"
proof -
  have "batch_body svc [] sm B mdl temp mt world0 = (Inr [], world0)"
    using assms by (simp add: batch_body_def range_py_def)
  then show ?thesis
    unfolding get_completion_from_messages_batch_def by (rule retry_returns)
qed

lemma flaky_run:
  "get_completion_from_messages_batch (scripted_service (failing_at [1, 3] RateLimitError)) half_jitter
          [''a'', ''b''] ''sys'' 1 ''gpt-3.5-turbo'' 0 300 world0
        = (Inr [''ok'', ''ok''],
           \<lparr>calls = [batch_request [''a'', ''b''] ''sys'' 1 ''gpt-3.5-turbo'' 0 300 0,
                     batch_request [''a'', ''b''] ''sys'' 1 ''gpt-3.5-turbo'' 0 300 1,
                     batch_request [''a'', ''b''] ''sys'' 1 ''gpt-3.5-turbo'' 0 300 0,
                     batch_request [''a'', ''b''] ''sys'' 1 ''gpt-3.5-turbo'' 0 300 1,
                     batch_request [''a'', ''b''] ''sys'' 1 ''gpt-3.5-turbo'' 0 300 0,
                     batch_request [''a'', ''b''] ''sys'' 1 ''gpt-3.5-turbo'' 0 300 1],
            sleeps = [30, 30]\<rparr>)"
proof -
  have h1: "(1::int) \<le> 1" by simp
  have h2: "1 < length (batch_offsets [''a'', ''b''] 1)" by (simp add: offsets_ab)
  show ?thesis
    unfolding batch_helper_third_attempt
                [OF h1 h2 flaky_script, of half_jitter "''sys''" "''gpt-3.5-turbo''" 0 300]
    by (simp add: offsets_ab content_at_def scripted_service_def failing_at_def reply_def
          first_content_def getitem_def wait_random_exponential_def wait_exponential_def)
qed

section \<open>The batch dispatcher\<close>

text \<open>
  C2, as the code has it. For every row sequence of length \<open>N\<close> (also the empty one) and
  every batch size \<open>B \<ge> 1\<close> the loop runs over the offsets \<open>0, B, 2B, ...\<close>, of which there
  are \<open>ceil(N / B)\<close>, and the slices taken at these offsets concatenate to the original
  rows. In a run in which every call is answered the helper issues exactly \<open>ceil(N / B)\<close>
  calls, one per offset and in that order, each carrying the system instruction and the
  rows of its slice; read one after the other, the user messages of the calls hold every
  row once, in the original order; the helper never sleeps and returns the first content
  of the answer to each call. For the empty sequence no call is issued and the result is
  the empty list, whatever the service does.
\<close>

theorem batch_dispatch_partition:
  assumes "1 \<le> batch_size"
  shows "range_py 0 (int (length df)) batch_size = Inr (batch_offsets df batch_size)
    \<and> length (batch_offsets df batch_size) = nat \<lceil>real (length df) / real_of_int batch_size\<rceil>
    \<and> concat (map (\<lambda>i. iloc df i (i + batch_size)) (batch_offsets df batch_size)) = df
    \<and> ((\<forall>n. answers svc n) \<longrightarrow>
          calls (snd (get_completion_from_messages_batch svc rnd df sm batch_size mdl temp mt world0))
            = map (\<lambda>i. \<lparr>model = mdl,
                         messages = [\<lparr>role = ''system'', content = sm\<rparr>,
                                     \<lparr>role = ''user'',
                                      content = concat (map (\<lambda>row. row @ ''####'')
                                                         (iloc df i (i + batch_size)))\<rparr>],
                         temperature = temp, max_tokens = mt\<rparr>)
                  (batch_offsets df batch_size)
          \<and> length (calls (snd (get_completion_from_messages_batch svc rnd df sm batch_size mdl temp mt world0)))
            = nat \<lceil>real (length df) / real_of_int batch_size\<rceil>
          \<and> concat (map (\<lambda>r. content (last (messages r)))
                (calls (snd (get_completion_from_messages_batch svc rnd df sm batch_size mdl temp mt world0))))
            = concat (map (\<lambda>row. row @ ''####'') df)
          \<and> sleeps (snd (get_completion_from_messages_batch svc rnd df sm batch_size mdl temp mt world0)) = []
          \<and> fst (get_completion_from_messages_batch svc rnd df sm batch_size mdl temp mt world0)
            = Inr (map (\<lambda>(j, r). content_at svc j r)
                    (enumerate 0
                      (calls (snd (get_completion_from_messages_batch svc rnd df sm batch_size mdl temp mt world0))))))
    \<and> (df = [] \<longrightarrow>
          get_completion_from_messages_batch svc rnd df sm batch_size mdl temp mt world0 = (Inr [], world0))"
proof -
  let ?offs = "batch_offsets df batch_size"
  let ?req = "batch_request df sm batch_size mdl temp mt"
  let ?run = "get_completion_from_messages_batch svc rnd df sm batch_size mdl temp mt world0"
  let ?explicit = "\<lambda>i. \<lparr>model = mdl,
                         messages = [\<lparr>role = ''system'', content = sm\<rparr>,
                                     \<lparr>role = ''user'',
                                      content = concat (map (\<lambda>row. row @ ''####'')
                                                         (iloc df i (i + batch_size)))\<rparr>],
                         temperature = temp, max_tokens = mt\<rparr>"
  have B: "0 < batch_size" using assms by simp
  have 1: "range_py 0 (int (length df)) batch_size = Inr ?offs"
    unfolding batch_offsets_def by (rule range_py_pos[OF B])
  have 2: "length ?offs = nat \<lceil>real (length df) / real_of_int batch_size\<rceil>"
    by (simp add: batch_offsets_def)
  have 3: "concat (map (\<lambda>i. iloc df i (i + batch_size)) ?offs) = df"
    unfolding batch_offsets_def by (rule concat_batches[OF B])
  have req: "?req = ?explicit" by (rule ext) (rule batch_request_eq)
  have 4: "calls (snd ?run) = map ?explicit ?offs
          \<and> length (calls (snd ?run)) = nat \<lceil>real (length df) / real_of_int batch_size\<rceil>
          \<and> concat (map (\<lambda>r. content (last (messages r))) (calls (snd ?run)))
            = concat (map (\<lambda>row. row @ ''####'') df)
          \<and> sleeps (snd ?run) = []
          \<and> fst ?run = Inr (map (\<lambda>(j, r). content_at svc j r) (enumerate 0 (calls (snd ?run))))"
    if a: "\<forall>n. answers svc n"
  proof -
    have run: "?run = (Inr (map (\<lambda>(j, i). content_at svc j (?req i)) (enumerate 0 ?offs)),
                       \<lparr>calls = map ?req ?offs, sleeps = []\<rparr>)"
      by (rule batch_helper_all_answered[OF assms a])
    have c: "calls (snd ?run) = map ?explicit ?offs" unfolding run req by simp
    have l: "length (calls (snd ?run)) = nat \<lceil>real (length df) / real_of_int batch_size\<rceil>"
      unfolding c by (simp add: 2)
    have "concat (map (\<lambda>r. content (last (messages r))) (map ?explicit ?offs))
            = concat (map (\<lambda>i. concat (map (\<lambda>row. row @ ''####'') (iloc df i (i + batch_size)))) ?offs)"
      by (simp add: o_def)
    also have "\<dots> = concat (map (\<lambda>row. row @ ''####'') (concat (map (\<lambda>i. iloc df i (i + batch_size)) ?offs)))"
      by (rule concat_map_slices)
    finally have m: "concat (map (\<lambda>r. content (last (messages r))) (calls (snd ?run)))
            = concat (map (\<lambda>row. row @ ''####'') df)"
      unfolding c 3 .
    have s: "sleeps (snd ?run) = []" unfolding run by simp
    have "map (\<lambda>(j, i). content_at svc j (?req i)) (enumerate 0 ?offs)
            = map (\<lambda>(j, r). content_at svc j r) (enumerate 0 (map ?req ?offs))"
      by (rule map_enumerate_map[symmetric])
    then have f: "fst ?run = Inr (map (\<lambda>(j, r). content_at svc j r) (enumerate 0 (calls (snd ?run))))"
      unfolding run by simp
    from c l m s f show ?thesis by blast
  qed
  have 5: "?run = (Inr [], world0)" if "df = []"
    unfolding that by (rule batch_helper_no_rows[OF assms])
  from 1 2 3 4 5 show ?thesis by blast
qed


theorem batch_dispatch_partition_witness:
  "(1::int) \<le> 2
   \<and> answers (scripted_service no_failure) 0
   \<and> range_py 0 (int (length [''a'', ''b'', ''c'', ''d'', ''e''])) 2 = Inr [0, 2, 4]
   \<and> nat \<lceil>real (length [''a'', ''b'', ''c'', ''d'', ''e'']) / real_of_int 2\<rceil> = 3
   \<and> map (\<lambda>i. iloc [''a'', ''b'', ''c'', ''d'', ''e''] i (i + 2)) [0, 2, 4]
       = [[''a'', ''b''], [''c'', ''d''], [''e'']]
   \<and> calls (snd (get_completion_from_messages_batch (scripted_service no_failure) half_jitter
        [''a'', ''b'', ''c'', ''d'', ''e''] ''sys'' 2 ''gpt-3.5-turbo'' 0 300 world0))
       = [\<lparr>model = ''gpt-3.5-turbo'',
           messages = [\<lparr>role = ''system'', content = ''sys''\<rparr>,
                       \<lparr>role = ''user'', content = ''a####b####''\<rparr>],
           temperature = 0, max_tokens = 300\<rparr>,
          \<lparr>model = ''gpt-3.5-turbo'',
           messages = [\<lparr>role = ''system'', content = ''sys''\<rparr>,
                       \<lparr>role = ''user'', content = ''c####d####''\<rparr>],
           temperature = 0, max_tokens = 300\<rparr>,
          \<lparr>model = ''gpt-3.5-turbo'',
           messages = [\<lparr>role = ''system'', content = ''sys''\<rparr>,
                       \<lparr>role = ''user'', content = ''e####''\<rparr>],
           temperature = 0, max_tokens = 300\<rparr>]
   \<and> sleeps (snd (get_completion_from_messages_batch (scripted_service no_failure) half_jitter
        [''a'', ''b'', ''c'', ''d'', ''e''] ''sys'' 2 ''gpt-3.5-turbo'' 0 300 world0)) = []
   \<and> fst (get_completion_from_messages_batch (scripted_service no_failure) half_jitter
        [''a'', ''b'', ''c'', ''d'', ''e''] ''sys'' 2 ''gpt-3.5-turbo'' 0 300 world0) = Inr [''ok'', ''ok'', ''ok'']"
proof -
  have h1: "(1::int) \<le> 2" by simp
  have h2: "\<forall>n. answers (scripted_service no_failure) n" by (simp add: answers_no_failure)
  have o: "batch_offsets [''a'', ''b'', ''c'', ''d'', ''e''] 2 = [0, 2, 4]"
    by (simp add: batch_offsets_def upt_rec)
  note inst = batch_dispatch_partition
                [OF h1, of "[''a'', ''b'', ''c'', ''d'', ''e'']" "scripted_service no_failure" half_jitter
                   "''sys''" "''gpt-3.5-turbo''" 0 300]
  have c: "calls (snd (get_completion_from_messages_batch (scripted_service no_failure) half_jitter
        [''a'', ''b'', ''c'', ''d'', ''e''] ''sys'' 2 ''gpt-3.5-turbo'' 0 300 world0))
       = [\<lparr>model = ''gpt-3.5-turbo'',
           messages = [\<lparr>role = ''system'', content = ''sys''\<rparr>,
                       \<lparr>role = ''user'', content = ''a####b####''\<rparr>],
           temperature = 0, max_tokens = 300\<rparr>,
          \<lparr>model = ''gpt-3.5-turbo'',
           messages = [\<lparr>role = ''system'', content = ''sys''\<rparr>,
                       \<lparr>role = ''user'', content = ''c####d####''\<rparr>],
           temperature = 0, max_tokens = 300\<rparr>,
          \<lparr>model = ''gpt-3.5-turbo'',
           messages = [\<lparr>role = ''system'', content = ''sys''\<rparr>,
                       \<lparr>role = ''user'', content = ''e####''\<rparr>],
           temperature = 0, max_tokens = 300\<rparr>]"
    using inst h2 by (simp add: o iloc_def slice_bound_def)
  have f: "fst (get_completion_from_messages_batch (scripted_service no_failure) half_jitter
        [''a'', ''b'', ''c'', ''d'', ''e''] ''sys'' 2 ''gpt-3.5-turbo'' 0 300 world0) = Inr [''ok'', ''ok'', ''ok'']"
    using inst h2 unfolding c
    by (simp add: content_at_def scripted_service_def no_failure_def reply_def first_content_def getitem_def)
  have s: "sleeps (snd (get_completion_from_messages_batch (scripted_service no_failure) half_jitter
        [''a'', ''b'', ''c'', ''d'', ''e''] ''sys'' 2 ''gpt-3.5-turbo'' 0 300 world0)) = []"
    using inst h2 by simp
  have r: "range_py 0 (int (length [''a'', ''b'', ''c'', ''d'', ''e''])) 2 = Inr [0, 2, 4]"
    using inst by (simp add: o)
  have n: "nat \<lceil>real (length [''a'', ''b'', ''c'', ''d'', ''e'']) / real_of_int 2\<rceil> = 3"
    using inst by (simp add: o)
  have sl: "map (\<lambda>i. iloc [''a'', ''b'', ''c'', ''d'', ''e''] i (i + 2)) [0, 2, 4]
       = [[''a'', ''b''], [''c'', ''d''], [''e'']]"
    by (simp add: iloc_def slice_bound_def)
  from h1 h2 r n sl c s f show ?thesis by blast
qed

text \<open>
  Without the condition that every call is answered the count fails: on the rows
  \<open>["a", "b"]\<close> with batch size 1, when the second batch's call fails twice and is then
  answered, the helper returns normally after six calls, where \<open>ceil(N / B)\<close> is two.
\<close>

theorem call_count_under_retry_counterexample:
  "(1::int) \<le> 1
   \<and> nat \<lceil>real (length [''a'', ''b'']) / real_of_int 1\<rceil> = 2
   \<and> fst (get_completion_from_messages_batch (scripted_service (failing_at [1, 3] RateLimitError))
          half_jitter [''a'', ''b''] ''sys'' 1 ''gpt-3.5-turbo'' 0 300 world0) = Inr [''ok'', ''ok'']
   \<and> length (calls (snd (get_completion_from_messages_batch
          (scripted_service (failing_at [1, 3] RateLimitError))
          half_jitter [''a'', ''b''] ''sys'' 1 ''gpt-3.5-turbo'' 0 300 world0))) = 6
   \<and> length (calls (snd (get_completion_from_messages_batch
          (scripted_service (failing_at [1, 3] RateLimitError))
          half_jitter [''a'', ''b''] ''sys'' 1 ''gpt-3.5-turbo'' 0 300 world0)))
       \<noteq> nat \<lceil>real (length [''a'', ''b'']) / real_of_int 1\<rceil>"
  unfolding flaky_run by simp

text \<open>
  C9. The precondition \<open>batch_size \<ge> 1\<close> matters. With \<open>batch_size = 0\<close> the loop header
  raises \<open>ValueError\<close> before any call is issued: one attempt leaves the world untouched,
  and the decorated helper ends in failure without a single outbound call. With a negative
  \<open>batch_size\<close> the range is empty: no call is issued and the empty list is returned,
  whatever rows were given.
\<close>

theorem batch_size_precondition:
  "batch_body svc df sm 0 mdl temp mt w = (Inl ValueError, w)
   \<and> get_completion_from_messages_batch svc rnd df sm 0 mdl temp mt world0
       = (Inl (RetryError ValueError),
          \<lparr>calls = [], sleeps = map (\<lambda>n. wait_random_exponential 30 60 (rnd n) n) [1..<6]\<rparr>)
   \<and> (batch_size < 0 \<longrightarrow>
         batch_body svc df sm batch_size mdl temp mt w = (Inr [], w)
         \<and> get_completion_from_messages_batch svc rnd df sm batch_size mdl temp mt world0 = (Inr [], world0))"
proof (intro conjI impI)
  show "batch_body svc df sm 0 mdl temp mt w = (Inl ValueError, w)"
    by (rule batch_body_zero)
  show "get_completion_from_messages_batch svc rnd df sm 0 mdl temp mt world0
       = (Inl (RetryError ValueError),
          \<lparr>calls = [], sleeps = map (\<lambda>n. wait_random_exponential 30 60 (rnd n) n) [1..<6]\<rparr>)"
    unfolding get_completion_from_messages_batch_def reraise_default_def
    by (rule retry_same_failure) (simp_all add: batch_body_zero)
next
  assume neg: "batch_size < 0"
  show "batch_body svc df sm batch_size mdl temp mt w = (Inr [], w)"
    using neg by (rule batch_body_negative)
  show "get_completion_from_messages_batch svc rnd df sm batch_size mdl temp mt world0 = (Inr [], world0)"
    unfolding get_completion_from_messages_batch_def
    by (rule retry_returns) (rule batch_body_negative[OF neg])
qed

theorem batch_size_precondition_witness:
  "(-2::int) < 0
   \<and> batch_body (scripted_service no_failure) [''a'', ''b'', ''c''] ''sys'' (-2) ''gpt-3.5-turbo'' 0 300 world0
       = (Inr [], world0)
   \<and> get_completion_from_messages_batch (scripted_service no_failure) half_jitter [''a'', ''b'', ''c''] ''sys''
        (-2) ''gpt-3.5-turbo'' 0 300 world0 = (Inr [], world0)"
  using batch_size_precondition [of "scripted_service no_failure" "[''a'', ''b'', ''c'']" "''sys''"
          "''gpt-3.5-turbo''" 0 300 world0 half_jitter "-2"]
  by simp

text \<open>
  C5, as the code has it. The request built for a batch consists of exactly two messages,
  first the system instruction, then a user message in which every row text is followed
  by the delimiter \<open>####\<close>: for a non-empty batch that is the rows joined by the delimiter
  and one more delimiter after the last row. The counterexample shows the trailing
  delimiter on the batch \<open>["a", "b"]\<close>, where the claim expects \<open>a####b\<close>.
\<close>

theorem user_message_terminated:
  "messages (batch_request df system_message batch_size mdl temp mt i) =
     [\<lparr>role = ''system'', content = system_message\<rparr>,
      \<lparr>role = ''user'',
       content = concat (map (\<lambda>row. row @ ''####'') (iloc df i (i + batch_size)))\<rparr>]
   \<and> (iloc df i (i + batch_size) \<noteq> [] \<longrightarrow>
         messages (batch_request df system_message batch_size mdl temp mt i) =
           [\<lparr>role = ''system'', content = system_message\<rparr>,
            \<lparr>role = ''user'', content = join_rows ''####'' (iloc df i (i + batch_size)) @ ''####''\<rparr>])"
  by (simp add: batch_request_messages_eq concat_delimited_join)

theorem user_message_terminated_witness:
  "iloc [''a'', ''b'', ''c''] 2 (2 + 2) \<noteq> []
   \<and> messages (batch_request [''a'', ''b'', ''c''] ''sys'' 2 ''gpt-3.5-turbo'' 0 300 2) =
       [\<lparr>role = ''system'', content = ''sys''\<rparr>, \<lparr>role = ''user'', content = ''c####''\<rparr>]"
  using user_message_terminated [of "[''a'', ''b'', ''c'']" "''sys''" 2 "''gpt-3.5-turbo''" 0 300 2]
  by (simp add: iloc_def slice_bound_def)

theorem user_message_join_counterexample:
  "iloc [''a'', ''b''] 0 (0 + 2) = [''a'', ''b'']
   \<and> join_rows ''####'' [''a'', ''b''] = ''a####b''
   \<and> messages (batch_request [''a'', ''b''] ''sys'' 2 ''gpt-3.5-turbo'' 0 300 0) =
       [\<lparr>role = ''system'', content = ''sys''\<rparr>, \<lparr>role = ''user'', content = ''a####b####''\<rparr>]
   \<and> messages (batch_request [''a'', ''b''] ''sys'' 2 ''gpt-3.5-turbo'' 0 300 0) \<noteq>
       [\<lparr>role = ''system'', content = ''sys''\<rparr>,
        \<lparr>role = ''user'', content = join_rows ''####'' (iloc [''a'', ''b''] 0 (0 + 2))\<rparr>]"
  by (simp add: batch_request_def iloc_def slice_bound_def)

text \<open>
  C7. Called with its defaults, the single-message helper issues one request with
  temperature 0 and a budget of 150 tokens and, when the service answers, returns the
  content of the first choice's message. Called with its defaults, the batch helper issues
  only requests with temperature 0 and a budget of 300 tokens, whatever the service does;
  when every call is answered, the value it returns holds, for each batch in order, the
  content of the first choice's message of that batch's answer.
\<close>

theorem default_generation_parameters:
  "calls (snd (get_completion_from_messages_default svc msgs w))
      = calls w @ [\<lparr>model = ''gpt-3.5-turbo'', messages = msgs, temperature = 0, max_tokens = 150\<rparr>]
   \<and> (svc (length (calls w))
          \<lparr>model = ''gpt-3.5-turbo'', messages = msgs, temperature = 0, max_tokens = 150\<rparr> = Inr resp
        \<and> choices resp = c # cs
      \<longrightarrow> fst (get_completion_from_messages_default svc msgs w) = Inr (content (message c)))
   \<and> (\<forall>r\<in>set (calls (snd (get_completion_from_messages_batch_default svc rnd df sm batch_size world0))).
        temperature r = 0 \<and> max_tokens r = 300)
   \<and> (1 \<le> batch_size \<and> (\<forall>n. answers svc n) \<longrightarrow>
        (\<exists>responses.
           fst (get_completion_from_messages_batch_default svc rnd df sm batch_size world0) = Inr responses
           \<and> length responses = length (batch_offsets df batch_size)
           \<and> (\<forall>j<length responses. \<exists>resp c cs.
                 svc j (batch_request df sm batch_size ''gpt-3.5-turbo'' 0 300 (batch_offsets df batch_size ! j))
                   = Inr resp
                 \<and> choices resp = c # cs \<and> responses ! j = content (message c))))"
proof (intro conjI impI)
  show "calls (snd (get_completion_from_messages_default svc msgs w))
      = calls w @ [\<lparr>model = ''gpt-3.5-turbo'', messages = msgs, temperature = 0, max_tokens = 150\<rparr>]"
    by (simp add: get_completion_from_messages_default_def get_completion_from_messages_def
          ChatCompletion_create_def split: sum.split)
  show "\<forall>r\<in>set (calls (snd (get_completion_from_messages_batch_default svc rnd df sm batch_size world0))).
        temperature r = 0 \<and> max_tokens r = 300"
    unfolding get_completion_from_messages_batch_default_def by (rule batch_helper_calls_invariant)
next
  assume "svc (length (calls w))
          \<lparr>model = ''gpt-3.5-turbo'', messages = msgs, temperature = 0, max_tokens = 150\<rparr> = Inr resp
        \<and> choices resp = c # cs"
  then show "fst (get_completion_from_messages_default svc msgs w) = Inr (content (message c))"
    by (simp add: get_completion_from_messages_default_def get_completion_from_messages_def
          ChatCompletion_create_def first_content_Cons)
next
  assume a: "1 \<le> batch_size \<and> (\<forall>n. answers svc n)"
  let ?req = "batch_request df sm batch_size ''gpt-3.5-turbo'' 0 300"
  let ?offs = "batch_offsets df batch_size"
  let ?rs = "map (\<lambda>(j, i). content_at svc j (?req i)) (enumerate 0 ?offs)"
  have run: "get_completion_from_messages_batch_default svc rnd df sm batch_size world0
      = (Inr ?rs, \<lparr>calls = map ?req ?offs, sleeps = []\<rparr>)"
    unfolding get_completion_from_messages_batch_default_def get_completion_from_messages_batch_def
    using a by (intro retry_returns batch_body_all_answered) simp_all
  have each: "\<exists>resp c cs. svc j (?req (?offs ! j)) = Inr resp \<and> choices resp = c # cs
                 \<and> ?rs ! j = content (message c)" if "j < length ?rs" for j
  proof -
    have "?rs ! j = content_at svc j (?req (?offs ! j))" using that by (simp add: nth_enumerate_eq)
    moreover have "answers svc j" using a by simp
    ultimately show ?thesis using answers_content_at[of svc j "?req (?offs ! j)"] by simp
  qed
  show "\<exists>responses.
           fst (get_completion_from_messages_batch_default svc rnd df sm batch_size world0) = Inr responses
           \<and> length responses = length (batch_offsets df batch_size)
           \<and> (\<forall>j<length responses. \<exists>resp c cs.
                 svc j (batch_request df sm batch_size ''gpt-3.5-turbo'' 0 300 (batch_offsets df batch_size ! j))
                   = Inr resp
                 \<and> choices resp = c # cs \<and> responses ! j = content (message c))"
  proof (intro exI conjI)
    show "fst (get_completion_from_messages_batch_default svc rnd df sm batch_size world0) = Inr ?rs"
      by (simp add: run)
    show "length ?rs = length ?offs" by simp
    show "\<forall>j<length ?rs. \<exists>resp c cs. svc j (?req (?offs ! j)) = Inr resp \<and> choices resp = c # cs
                 \<and> ?rs ! j = content (message c)"
      using each by blast
  qed
qed


theorem default_generation_parameters_witness:
  "scripted_service no_failure (length (calls world0))
       \<lparr>model = ''gpt-3.5-turbo'', messages = [\<lparr>role = ''user'', content = ''hi''\<rparr>],
        temperature = 0, max_tokens = 150\<rparr> = Inr (reply ''ok'')
   \<and> choices (reply ''ok'') = \<lparr>message = \<lparr>role = ''assistant'', content = ''ok''\<rparr>\<rparr> # []
   \<and> fst (get_completion_from_messages_default (scripted_service no_failure)
          [\<lparr>role = ''user'', content = ''hi''\<rparr>] world0) = Inr ''ok''
   \<and> calls (snd (get_completion_from_messages_default (scripted_service no_failure)
          [\<lparr>role = ''user'', content = ''hi''\<rparr>] world0))
       = [\<lparr>model = ''gpt-3.5-turbo'', messages = [\<lparr>role = ''user'', content = ''hi''\<rparr>],
           temperature = 0, max_tokens = 150\<rparr>]
   \<and> (1::int) \<le> 2
   \<and> answers (scripted_service no_failure) 0
   \<and> get_completion_from_messages_batch_default (scripted_service no_failure) half_jitter
         [''a'', ''b'', ''c''] ''sys'' 2 world0
       = (Inr [''ok'', ''ok''],
          \<lparr>calls = [\<lparr>model = ''gpt-3.5-turbo'',
                      messages = [\<lparr>role = ''system'', content = ''sys''\<rparr>,
                                  \<lparr>role = ''user'', content = ''a####b####''\<rparr>],
                      temperature = 0, max_tokens = 300\<rparr>,
                    \<lparr>model = ''gpt-3.5-turbo'',
                      messages = [\<lparr>role = ''system'', content = ''sys''\<rparr>,
                                  \<lparr>role = ''user'', content = ''c####''\<rparr>],
                      temperature = 0, max_tokens = 300\<rparr>],
           sleeps = []\<rparr>)"
proof -
  have h: "(1::int) \<le> 2" "\<forall>n. answers (scripted_service no_failure) n"
    by (simp_all add: answers_no_failure)
  have o: "batch_offsets [''a'', ''b'', ''c''] 2 = [0, 2]"
    by (simp add: batch_offsets_def upt_rec)
  have run: "get_completion_from_messages_batch_default (scripted_service no_failure) half_jitter
         [''a'', ''b'', ''c''] ''sys'' 2 world0
       = (Inr [''ok'', ''ok''],
          \<lparr>calls = [\<lparr>model = ''gpt-3.5-turbo'',
                      messages = [\<lparr>role = ''system'', content = ''sys''\<rparr>,
                                  \<lparr>role = ''user'', content = ''a####b####''\<rparr>],
                      temperature = 0, max_tokens = 300\<rparr>,
                    \<lparr>model = ''gpt-3.5-turbo'',
                      messages = [\<lparr>role = ''system'', content = ''sys''\<rparr>,
                                  \<lparr>role = ''user'', content = ''c####''\<rparr>],
                      temperature = 0, max_tokens = 300\<rparr>],
           sleeps = []\<rparr>)"
    unfolding get_completion_from_messages_batch_default_def
    by (subst batch_helper_all_answered[OF h])
       (simp add: o content_at_def scripted_service_def no_failure_def reply_def first_content_def
          getitem_def batch_request_def iloc_def slice_bound_def)
  note inst = default_generation_parameters
         [of "scripted_service no_failure" "[\<lparr>role = ''user'', content = ''hi''\<rparr>]" world0 "reply ''ok''"
             "\<lparr>message = \<lparr>role = ''assistant'', content = ''ok''\<rparr>\<rparr>" "[]" half_jitter
             "[''a'', ''b'', ''c'']" "''sys''" 2]
  have c0: "calls world0 = []" by (simp add: world0_def)
  from inst show ?thesis
    by (simp add: run h c0 scripted_service_def no_failure_def reply_def)
qed

section \<open>Retry and back-off\<close>

text \<open>
  C6. Every delay of the back-off policy with minimum 30 and maximum 60 lies between 30
  and 60 inclusive, for every attempt number and every draw from the unit interval. The
  delay never exceeds the upper end of the window of its attempt; that upper end lies
  between 30 and 60, never shrinks as the attempt number grows, and is 60 from the seventh
  attempt on.
\<close>

theorem backoff_delay_bounds:
  "(0 \<le> u \<and> u \<le> 1 \<longrightarrow>
      30 \<le> wait_random_exponential 30 60 u n \<and> wait_random_exponential 30 60 u n \<le> 60
      \<and> wait_random_exponential 30 60 u n \<le> wait_exponential 30 60 n)
   \<and> 30 \<le> wait_exponential 30 60 n \<and> wait_exponential 30 60 n \<le> 60
   \<and> (m \<le> n \<longrightarrow> wait_exponential 30 60 m \<le> wait_exponential 30 60 n)
   \<and> (7 \<le> n \<longrightarrow> wait_exponential 30 60 n = 60)"
proof (intro conjI impI)
  let ?h = "wait_exponential 30 60 n"
  have b: "30 \<le> ?h" "?h \<le> 60" using wait_exponential_bounds[of n] by simp_all
  show "30 \<le> ?h" "?h \<le> 60" by fact+
  show "wait_exponential 30 60 m \<le> ?h" if "m \<le> n" using that by (rule wait_exponential_mono)
  show "?h = 60" if "7 \<le> n" using that by (rule wait_exponential_ceiling)
  assume u: "0 \<le> u \<and> u \<le> 1"
  have d: "0 \<le> ?h - 30" using b by simp
  have lo: "0 \<le> u * (?h - 30)" using u d by simp
  have hi: "u * (?h - 30) \<le> 1 * (?h - 30)" using u d by (intro mult_right_mono) simp_all
  show "30 \<le> wait_random_exponential 30 60 u n" using lo by (simp add: wait_random_exponential_def)
  show "wait_random_exponential 30 60 u n \<le> wait_exponential 30 60 n"
    using hi by (simp add: wait_random_exponential_def)
  then show "wait_random_exponential 30 60 u n \<le> 60" using b by simp
qed

theorem backoff_delay_bounds_witness:
  "(0::real) \<le> 1 / 2 \<and> (1 / 2 :: real) \<le> 1 \<and> (3::nat) \<le> 8 \<and> (7::nat) \<le> 8
   \<and> wait_random_exponential 30 60 (1 / 2) 8 = 45
   \<and> wait_exponential 30 60 3 = 30 \<and> wait_exponential 30 60 8 = 60
   \<and> 30 \<le> wait_random_exponential 30 60 (1 / 2) 8 \<and> wait_random_exponential 30 60 (1 / 2) 8 \<le> 60"
  using backoff_delay_bounds [of "1 / 2" 8 3]
  by (simp add: wait_random_exponential_def wait_exponential_def)

text \<open>
  C1, as the code has it. The retry wraps the whole batch helper, not the single outbound
  call. In every run in which the call of the batch with index \<open>k\<close> fails in the first and
  in the second attempt and every other call is answered, each failure is followed by one
  back-off delay and a restart of the loop at the first batch: the batches up to and
  including the failing one are requested three times each, the later batches once, and
  the caller receives one list with one response per batch after exactly two delays.
\<close>

theorem retry_restarts_whole_dispatch:
  assumes "1 \<le> batch_size" and "k < length (batch_offsets df batch_size)"
    and "fails_with svc k e1" and "fails_with svc (2 * k + 1) e2"
    and "\<forall>n. n \<noteq> k \<and> n \<noteq> 2 * k + 1 \<longrightarrow> answers svc n"
  shows "get_completion_from_messages_batch svc rnd df sm batch_size mdl temp mt world0
     = (Inr (map (\<lambda>(j, i). content_at svc j (batch_request df sm batch_size mdl temp mt i))
               (enumerate (2 * Suc k) (batch_offsets df batch_size))),
        \<lparr>calls = map (batch_request df sm batch_size mdl temp mt) (take (Suc k) (batch_offsets df batch_size))
                 @ map (batch_request df sm batch_size mdl temp mt) (take (Suc k) (batch_offsets df batch_size))
                 @ map (batch_request df sm batch_size mdl temp mt) (batch_offsets df batch_size),
         sleeps = [wait_random_exponential 30 60 (rnd 1) 1, wait_random_exponential 30 60 (rnd 2) 2]\<rparr>)"
  using assms by (rule batch_helper_third_attempt)

theorem retry_restarts_whole_dispatch_witness:
  "(1::int) \<le> 1 \<and> 1 < length (batch_offsets [''a'', ''b''] 1) \<and> transient RateLimitError
   \<and> fails_with (scripted_service (failing_at [1, 3] RateLimitError)) 1 RateLimitError
   \<and> fails_with (scripted_service (failing_at [1, 3] RateLimitError)) 3 RateLimitError
   \<and> answers (scripted_service (failing_at [1, 3] RateLimitError)) 5
   \<and> fst (get_completion_from_messages_batch (scripted_service (failing_at [1, 3] RateLimitError)) half_jitter
          [''a'', ''b''] ''sys'' 1 ''gpt-3.5-turbo'' 0 300 world0) = Inr [''ok'', ''ok'']
   \<and> length (calls (snd (get_completion_from_messages_batch
          (scripted_service (failing_at [1, 3] RateLimitError)) half_jitter
          [''a'', ''b''] ''sys'' 1 ''gpt-3.5-turbo'' 0 300 world0))) = 6
   \<and> sleeps (snd (get_completion_from_messages_batch
          (scripted_service (failing_at [1, 3] RateLimitError)) half_jitter
          [''a'', ''b''] ''sys'' 1 ''gpt-3.5-turbo'' 0 300 world0)) = [30, 30]"
proof -
  have h1: "(1::int) \<le> 1" by simp
  have h2: "1 < length (batch_offsets [''a'', ''b''] 1)" by (simp add: offsets_ab)
  have run: "get_completion_from_messages_batch (scripted_service (failing_at [1, 3] RateLimitError)) half_jitter
          [''a'', ''b''] ''sys'' 1 ''gpt-3.5-turbo'' 0 300 world0
        = (Inr [''ok'', ''ok''],
           \<lparr>calls = [batch_request [''a'', ''b''] ''sys'' 1 ''gpt-3.5-turbo'' 0 300 0,
                     batch_request [''a'', ''b''] ''sys'' 1 ''gpt-3.5-turbo'' 0 300 1,
                     batch_request [''a'', ''b''] ''sys'' 1 ''gpt-3.5-turbo'' 0 300 0,
                     batch_request [''a'', ''b''] ''sys'' 1 ''gpt-3.5-turbo'' 0 300 1,
                     batch_request [''a'', ''b''] ''sys'' 1 ''gpt-3.5-turbo'' 0 300 0,
                     batch_request [''a'', ''b''] ''sys'' 1 ''gpt-3.5-turbo'' 0 300 1],
            sleeps = [30, 30]\<rparr>)"
    unfolding retry_restarts_whole_dispatch
                [OF h1 h2 flaky_script, of half_jitter "''sys''" "''gpt-3.5-turbo''" 0 300]
    by (simp add: offsets_ab content_at_def scripted_service_def failing_at_def reply_def
          first_content_def getitem_def wait_random_exponential_def wait_exponential_def)
  have a5: "answers (scripted_service (failing_at [1, 3] RateLimitError)) 5"
    using flaky_script(3) by simp
  have f3: "fails_with (scripted_service (failing_at [1, 3] RateLimitError)) 3 RateLimitError"
    using flaky_script(2) by simp
  show ?thesis
    unfolding run using flaky_script(1) f3 a5 h1 h2 by simp
qed

text \<open>
  The claim as stated fails on the rows \<open>["a", "b"]\<close> with batch size 1 when the second
  batch's call fails twice with a rate-limit error and is then answered: the request of the
  first batch, which never failed, is issued three times, not once.
\<close>

theorem other_batches_reissued_counterexample:
  "fails_with (scripted_service (failing_at [1, 3] RateLimitError)) 1 RateLimitError
   \<and> fails_with (scripted_service (failing_at [1, 3] RateLimitError)) 3 RateLimitError
   \<and> answers (scripted_service (failing_at [1, 3] RateLimitError)) 5
   \<and> transient RateLimitError
   \<and> calls (snd (get_completion_from_messages_batch
          (scripted_service (failing_at [1, 3] RateLimitError)) half_jitter
          [''a'', ''b''] ''sys'' 1 ''gpt-3.5-turbo'' 0 300 world0))
      = [batch_request [''a'', ''b''] ''sys'' 1 ''gpt-3.5-turbo'' 0 300 0,
         batch_request [''a'', ''b''] ''sys'' 1 ''gpt-3.5-turbo'' 0 300 1,
         batch_request [''a'', ''b''] ''sys'' 1 ''gpt-3.5-turbo'' 0 300 0,
         batch_request [''a'', ''b''] ''sys'' 1 ''gpt-3.5-turbo'' 0 300 1,
         batch_request [''a'', ''b''] ''sys'' 1 ''gpt-3.5-turbo'' 0 300 0,
         batch_request [''a'', ''b''] ''sys'' 1 ''gpt-3.5-turbo'' 0 300 1]
   \<and> count_list (calls (snd (get_completion_from_messages_batch
          (scripted_service (failing_at [1, 3] RateLimitError)) half_jitter
          [''a'', ''b''] ''sys'' 1 ''gpt-3.5-turbo'' 0 300 world0)))
        (batch_request [''a'', ''b''] ''sys'' 1 ''gpt-3.5-turbo'' 0 300 0) = 3"
proof -
  have h1: "(1::int) \<le> 1" by simp
  have h2: "1 < length (batch_offsets [''a'', ''b''] 1)" by (simp add: offsets_ab)
  have run: "get_completion_from_messages_batch (scripted_service (failing_at [1, 3] RateLimitError)) half_jitter
          [''a'', ''b''] ''sys'' 1 ''gpt-3.5-turbo'' 0 300 world0
        = (Inr [''ok'', ''ok''],
           \<lparr>calls = [batch_request [''a'', ''b''] ''sys'' 1 ''gpt-3.5-turbo'' 0 300 0,
                     batch_request [''a'', ''b''] ''sys'' 1 ''gpt-3.5-turbo'' 0 300 1,
                     batch_request [''a'', ''b''] ''sys'' 1 ''gpt-3.5-turbo'' 0 300 0,
                     batch_request [''a'', ''b''] ''sys'' 1 ''gpt-3.5-turbo'' 0 300 1,
                     batch_request [''a'', ''b''] ''sys'' 1 ''gpt-3.5-turbo'' 0 300 0,
                     batch_request [''a'', ''b''] ''sys'' 1 ''gpt-3.5-turbo'' 0 300 1],
            sleeps = [30, 30]\<rparr>)"
    unfolding batch_helper_third_attempt
                [OF h1 h2 flaky_script, of half_jitter "''sys''" "''gpt-3.5-turbo''" 0 300]
    by (simp add: offsets_ab content_at_def scripted_service_def failing_at_def reply_def
          first_content_def getitem_def wait_random_exponential_def wait_exponential_def)
  have a5: "answers (scripted_service (failing_at [1, 3] RateLimitError)) 5"
    using flaky_script(3) by simp
  have f3: "fails_with (scripted_service (failing_at [1, 3] RateLimitError)) 3 RateLimitError"
    using flaky_script(2) by simp
  have ne: "batch_request [''a'', ''b''] ''sys'' 1 ''gpt-3.5-turbo'' 0 300 1
           \<noteq> batch_request [''a'', ''b''] ''sys'' 1 ''gpt-3.5-turbo'' 0 300 0"
    by (simp add: batch_request_def iloc_def slice_bound_def)
  show ?thesis
    unfolding run using flaky_script(1) f3 a5 ne by simp
qed

text \<open>
  C3, as the code has it. When every call fails, with whatever errors, transient or not,
  the batch helper is attempted exactly six times, with five back-off delays in between;
  each attempt stops at its first call, and then \<open>RetryError\<close> wrapping the failure of the
  sixth attempt reaches the caller.
\<close>

theorem retry_budget_any_failure:
  assumes "1 \<le> batch_size" and "df \<noteq> []" and "\<forall>n. fails_with svc n (err n)"
  shows "get_completion_from_messages_batch svc rnd df sm batch_size mdl temp mt world0
     = (Inl (RetryError (err 5)),
        \<lparr>calls = replicate 6 (batch_request df sm batch_size mdl temp mt 0),
         sleeps = map (\<lambda>n. wait_random_exponential 30 60 (rnd n) n) [1..<6]\<rparr>)"
proof -
  have k: "0 < length (batch_offsets df batch_size)"
    and t: "take (Suc 0) (batch_offsets df batch_size) = [0]"
    using offsets_nonempty[OF assms(1,2)] by simp_all
  have a: "\<forall>n. n mod Suc 0 \<noteq> 0 \<longrightarrow> answers svc n" by simp
  have f: "\<forall>n. n mod Suc 0 = 0 \<longrightarrow> fails_with svc n (err n)" using assms(3) by simp
  show ?thesis
    unfolding batch_helper_exhausted[OF assms(1) k a f] t
    by (simp only: list.map concat_replicate_single) simp
qed

theorem retry_budget_any_failure_witness:
  "(1::int) \<le> 2 \<and> [''a'', ''b'', ''c''] \<noteq> []
   \<and> fails_with (scripted_service (always_failing RateLimitError)) 0 RateLimitError
   \<and> fails_with (scripted_service (always_failing RateLimitError)) 5 RateLimitError
   \<and> fst (get_completion_from_messages_batch (scripted_service (always_failing RateLimitError)) half_jitter
        [''a'', ''b'', ''c''] ''sys'' 2 ''gpt-3.5-turbo'' 0 300 world0) = Inl (RetryError RateLimitError)
   \<and> length (calls (snd (get_completion_from_messages_batch
        (scripted_service (always_failing RateLimitError)) half_jitter
        [''a'', ''b'', ''c''] ''sys'' 2 ''gpt-3.5-turbo'' 0 300 world0))) = 6
   \<and> length (sleeps (snd (get_completion_from_messages_batch
        (scripted_service (always_failing RateLimitError)) half_jitter
        [''a'', ''b'', ''c''] ''sys'' 2 ''gpt-3.5-turbo'' 0 300 world0))) = 5"
proof -
  have h1: "(1::int) \<le> 2" and h2: "[''a'', ''b'', ''c''] \<noteq> []" by simp_all
  have h3: "\<forall>n. fails_with (scripted_service (always_failing RateLimitError)) n ((\<lambda>n. RateLimitError) n)"
    by (simp add: fails_with_def scripted_service_def always_failing_def)
  show ?thesis
    unfolding retry_budget_any_failure [OF h1 h2 h3]
    using h3 by simp
qed

text \<open>
  The claim as stated fails for an authentication failure, which is not transient: it is
  retried like any other failure, six calls are issued instead of one, and what reaches the
  caller is not the failure itself but \<open>RetryError\<close> around it.
\<close>

theorem permanent_failure_retried_counterexample:
  "\<not> transient AuthenticationError
   \<and> fails_with (scripted_service (always_failing AuthenticationError)) 0 AuthenticationError
   \<and> get_completion_from_messages_batch (scripted_service (always_failing AuthenticationError)) half_jitter
        [''a''] ''sys'' 1 ''gpt-3.5-turbo'' 0 300 world0
      = (Inl (RetryError AuthenticationError),
         \<lparr>calls = replicate 6 (batch_request [''a''] ''sys'' 1 ''gpt-3.5-turbo'' 0 300 0),
          sleeps = [30, 30, 30, 30, 30]\<rparr>)
   \<and> fst (get_completion_from_messages_batch (scripted_service (always_failing AuthenticationError)) half_jitter
        [''a''] ''sys'' 1 ''gpt-3.5-turbo'' 0 300 world0) \<noteq> Inl AuthenticationError
   \<and> length (calls (snd (get_completion_from_messages_batch
        (scripted_service (always_failing AuthenticationError)) half_jitter
        [''a''] ''sys'' 1 ''gpt-3.5-turbo'' 0 300 world0))) = 6"
proof -
  have h1: "(1::int) \<le> 1" and h2: "[''a''] \<noteq> []" by simp_all
  have h3: "\<forall>n. fails_with (scripted_service (always_failing AuthenticationError)) n AuthenticationError"
    by (simp add: fails_with_def scripted_service_def always_failing_def)
  have k: "0 < length (batch_offsets [''a''] 1)"
    and t: "take (Suc 0) (batch_offsets [''a''] 1) = [0]"
    using offsets_nonempty[OF h1 h2] by simp_all
  have a: "\<forall>n. n mod Suc 0 \<noteq> 0 \<longrightarrow> answers (scripted_service (always_failing AuthenticationError)) n" by simp
  have f: "\<forall>n. n mod Suc 0 = 0 \<longrightarrow>
             fails_with (scripted_service (always_failing AuthenticationError)) n ((\<lambda>n. AuthenticationError) n)"
    using h3 by simp
  have run: "get_completion_from_messages_batch (scripted_service (always_failing AuthenticationError)) half_jitter
        [''a''] ''sys'' 1 ''gpt-3.5-turbo'' 0 300 world0
      = (Inl (RetryError AuthenticationError),
         \<lparr>calls = replicate 6 (batch_request [''a''] ''sys'' 1 ''gpt-3.5-turbo'' 0 300 0),
          sleeps = [30, 30, 30, 30, 30]\<rparr>)"
    unfolding batch_helper_exhausted[OF h1 k a f] t upt_1_6
    by (simp add: concat_replicate_single wait_random_exponential_def wait_exponential_def half_jitter_def)
  show ?thesis unfolding run using h3 by simp
qed



section \<open>Post-processing: distinct labels and bracket repair\<close>

text \<open>
  C8. The distinct-label step maps the labels \<open>["Tech","tech","Space Policy","space"]\<close> to
  exactly the set \<open>{"tech","space"}\<close>. For every input list its result is the set of the
  lower-cased single-word labels and nothing else, so it depends on the input only through
  the set of its elements: neither order nor multiplicity matters. Words and letters are
  Python's also beyond ASCII: a label with a no-break space (U+00A0) between two letters
  has two words and is dropped, and a label of the letters U+00C9, \<open>T\<close>, U+00C9 is kept with
  both accented letters lower-cased to U+00E9.
\<close>

theorem unique_topics_extraction:
  "unique_topics [''Tech'', ''tech'', ''Space Policy'', ''space''] = {''tech'', ''space''}
   \<and> unique_topics all_topics = str_lower ` {s \<in> set all_topics. length (str_split s) = 1}
   \<and> (set all_topics = set other_topics \<longrightarrow> unique_topics all_topics = unique_topics other_topics)
   \<and> unique_topics [[CHR ''a'', CHR 0xA0, CHR ''b''], [CHR 0xC9, CHR ''T'', CHR 0xC9]]
       = {[CHR 0xE9, CHR ''t'', CHR 0xE9]}"
proof (intro conjI impI)
  show "unique_topics [''Tech'', ''tech'', ''Space Policy'', ''space''] = {''tech'', ''space''}"
    by code_simp
  show general: "unique_topics ts = str_lower ` {s \<in> set ts. length (str_split s) = 1}" for ts
    by (simp add: unique_topics_def all_topics_lower_def)
  show "unique_topics [[CHR ''a'', CHR 0xA0, CHR ''b''], [CHR 0xC9, CHR ''T'', CHR 0xC9]]
       = {[CHR 0xE9, CHR ''t'', CHR 0xE9]}"
    by code_simp
  assume "set all_topics = set other_topics"
  then show "unique_topics all_topics = unique_topics other_topics"
    by (simp add: general)
qed

theorem unique_topics_extraction_witness:
  "set [''Tech'', ''space'', ''Tech'', ''Space Policy''] = set [''Space Policy'', ''space'', ''Tech'']
   \<and> unique_topics [''Tech'', ''space'', ''Tech'', ''Space Policy'']
       = unique_topics [''Space Policy'', ''space'', ''Tech'']
   \<and> unique_topics [''Space Policy'', ''space'', ''Tech''] = {''space'', ''tech''}"
proof -
  have h: "set [''Tech'', ''space'', ''Tech'', ''Space Policy''] = set [''Space Policy'', ''space'', ''Tech'']"
    by auto
  have e: "unique_topics [''Space Policy'', ''space'', ''Tech''] = {''space'', ''tech''}"
    by code_simp
  from unique_topics_extraction
         [of "[''Tech'', ''space'', ''Tech'', ''Space Policy'']" "[''Space Policy'', ''space'', ''Tech'']"]
  have "set [''Tech'', ''space'', ''Tech'', ''Space Policy''] = set [''Space Policy'', ''space'', ''Tech'']
        \<longrightarrow> unique_topics [''Tech'', ''space'', ''Tech'', ''Space Policy'']
            = unique_topics [''Space Policy'', ''space'', ''Tech'']"
    by (elim conjE)
  with h have u: "unique_topics [''Tech'', ''space'', ''Tech'', ''Space Policy'']
            = unique_topics [''Space Policy'', ''space'', ''Tech'']" by (rule rev_mp)
  show ?thesis by (intro conjI h u e)
qed

text \<open>
  C10. On a list of non-empty response strings the bracket-repair loop succeeds and
  appends \<open>]\<close> to exactly the strings that do not already end with it; afterwards every
  element ends with \<open>]\<close>, and running the loop again changes nothing. When the loop meets
  an empty string it fails with \<open>IndexError\<close> and leaves that string as it is, appending
  nothing to it.
\<close>

theorem bracket_repair_idempotent:
  "((\<forall>r\<in>set responses. r \<noteq> []) \<longrightarrow>
       bracket_repair responses = (map close_bracket responses, None)
       \<and> (\<forall>r\<in>set (map close_bracket responses). r \<noteq> [] \<and> last r = CHR '']'')
       \<and> bracket_repair (map close_bracket responses) = (map close_bracket responses, None))
   \<and> ((\<forall>r\<in>set before. r \<noteq> []) \<longrightarrow>
         snd (bracket_repair (before @ [] # rest)) = Some IndexError
         \<and> fst (bracket_repair (before @ [] # rest)) ! length before = [])"
proof (intro conjI impI)
  assume ne: "\<forall>r\<in>set responses. r \<noteq> []"
  show "bracket_repair responses = (map close_bracket responses, None)"
    using ne by (rule bracket_repair_nonempty)
  show "\<forall>r\<in>set (map close_bracket responses). r \<noteq> [] \<and> last r = CHR '']''"
    using ne by (rule repaired_all_closed)
  show "bracket_repair (map close_bracket responses) = (map close_bracket responses, None)"
    using ne by (rule bracket_repair_again)
next
  assume ne: "\<forall>r\<in>set before. r \<noteq> []"
  show "snd (bracket_repair (before @ [] # rest)) = Some IndexError"
    by (simp add: bracket_repair_empty_string[OF ne])
  show "fst (bracket_repair (before @ [] # rest)) ! length before = []"
    by (simp add: bracket_repair_empty_string[OF ne] nth_append)
qed

theorem bracket_repair_idempotent_witness:
  "[] \<notin> set [''[1, 2'', ''[3]'']
   \<and> bracket_repair [''[1, 2'', ''[3]''] = ([''[1, 2]'', ''[3]''], None)
   \<and> bracket_repair [''[1, 2]'', ''[3]''] = ([''[1, 2]'', ''[3]''], None)
   \<and> [] \<notin> set [''[1'']
   \<and> snd (bracket_repair ([''[1''] @ [] # [''[2''])) = Some IndexError
   \<and> fst (bracket_repair ([''[1''] @ [] # [''[2''])) ! length [''[1''] = []"
  using bracket_repair_idempotent [of "[''[1, 2'', ''[3]'']" "[''[1'']" "[''[2'']"]
  by (simp add: close_bracket_def)

end
